theory Spec2Isabelle
  imports Complex_Main "HOL-Library.DAList" "HOL-Library.Product_Lexorder"
begin

section \<open>Python values and dictionaries\<close>

text \<open>
  A Python \<open>dict\<close> keeps its keys distinct and in insertion order: it is a
  distinct-key association list. \<open>d.get(k)\<close> is \<open>DAList.lookup d k\<close>,
  \<open>d[k] = v\<close> is \<open>DAList.update k v d\<close> (an existing key keeps its place, a new
  one goes to the end), \<open>del d[k]\<close> is \<open>DAList.delete k d\<close>.
\<close>

type_synonym ('k, 'v) dict = "('k, 'v) alist"

definition dict_len :: "('k, 'v) dict \<Rightarrow> nat" where
  "dict_len d = length (DAList.impl_of d)"

definition dict_keys :: "('k, 'v) dict \<Rightarrow> 'k list" where
  "dict_keys d = map fst (DAList.impl_of d)"

definition dict_values :: "('k, 'v) dict \<Rightarrow> 'v list" where
  "dict_values d = map snd (DAList.impl_of d)"

text \<open>Python's \<open>int(x)\<close> on a float truncates toward zero.\<close>

definition py_int :: "real \<Rightarrow> int" where
  "py_int x = (if 0 \<le> x then \<lfloor>x\<rfloor> else \<lceil>x\<rceil>)"

datatype error =
    RuntimeError string
  | InvalidLayer
  | InvalidRadius
  | TokenNotIndexed

section \<open>Token\<close>

text \<open>
  Modelled from the spec: the class \<open>Token\<close> (\<open>core.token.token_v2\<close> on the
  Python side, \<open>neurograph.Token\<close> on the engine side) is not among the sources.
  The spec gives its fields (identity, one optional coordinate triple per layer, weight,
  field radius and strength, independent flags) and its defaults: weight 0.5,
  field radius 1.0, field strength 1.0, no coordinates, not active. The eight
  coordinate slots are the values of \<open>coordinates\<close> at the layers 0 to 7.
\<close>

type_synonym coord = "real \<times> real \<times> real"

record token =
  tok_id :: int
  coordinates :: "nat \<Rightarrow> coord option"
  weight :: real
  field_radius :: real
  field_strength :: real
  persistent :: bool
  active :: bool

definition Token :: "int \<Rightarrow> token" where
  "Token i = \<lparr>tok_id = i, coordinates = (\<lambda>layer. None), weight = 0.5,
     field_radius = 1, field_strength = 1, persistent = False, active = False\<rparr>"

text \<open>
  Modelled from the spec: \<open>get_coordinates(layer)\<close> returns the triple or "unset";
  \<open>set_coordinates(layer, x, y, z)\<close> takes a layer in [0,7] (anything else is
  \<open>InvalidLayer\<close>); an omitted component is unchanged on update and 0.0 on first set.
\<close>

definition get_coordinates :: "token \<Rightarrow> nat \<Rightarrow> coord option" where
  "get_coordinates t layer = (if layer < 8 then coordinates t layer else None)"

definition set_coordinates ::
  "nat \<Rightarrow> real option \<Rightarrow> real option \<Rightarrow> real option \<Rightarrow> token \<Rightarrow> error + token" where
  "set_coordinates layer x y z t =
     (if 8 \<le> layer then Inl InvalidLayer
      else
        let (ox, oy, oz) = (case coordinates t layer of None \<Rightarrow> (0, 0, 0) | Some c \<Rightarrow> c);
            c' = (case x of None \<Rightarrow> ox | Some v \<Rightarrow> v,
                  case y of None \<Rightarrow> oy | Some v \<Rightarrow> v,
                  case z of None \<Rightarrow> oz | Some v \<Rightarrow> v)
        in Inr (t\<lparr>coordinates := (coordinates t)(layer := Some c')\<rparr>))"

definition set_flag_persistent :: "token \<Rightarrow> token" where
  "set_flag_persistent t = t\<lparr>persistent := True\<rparr>"

definition set_active :: "bool \<Rightarrow> token \<Rightarrow> token" where
  "set_active b t = t\<lparr>active := b\<rparr>"

section \<open>InMemoryTokenStorage\<close>

text \<open>
  The \<open>token_data\<close> dictionary, by key: an absent key is \<open>None\<close>. The eight
  coordinate entries are looked up by their key string; each is a dictionary with
  optional \<open>x\<close>, \<open>y\<close>, \<open>z\<close>.
\<close>

record coords_data =
  cx :: "real option"
  cy :: "real option"
  cz :: "real option"

record token_data =
  td_entity_type :: "int option"
  td_domain :: "int option"
  td_weight :: "real option"
  td_field_radius :: "real option"
  td_field_strength :: "real option"
  td_persistent :: "bool option"
  td_coords :: "string \<rightharpoonup> coords_data"

definition coord_keys :: "string list" where
  "coord_keys = [''l1_physical'', ''l2_sensory'', ''l3_motor'', ''l4_emotional'',
     ''l5_cognitive'', ''l6_social'', ''l7_temporal'', ''l8_abstract'']"

definition coord_key :: "nat \<Rightarrow> string" where
  "coord_key level = coord_keys ! level"

definition levels :: "nat list" where
  "levels = [0, 1, 2, 3, 4, 5, 6, 7]"

record token_storage =
  storage :: "(int, token) dict"
  next_local_id :: int

definition fresh_token_storage :: token_storage where
  "fresh_token_storage = \<lparr>storage = DAList.empty, next_local_id = 1\<rparr>"

definition get :: "int \<Rightarrow> token_storage \<Rightarrow> token option" where
  "get token_id s = DAList.lookup (storage s) token_id"

text \<open>The body of the loop over the eight levels, shared by \<open>create\<close> and \<open>update\<close>.\<close>

definition set_level :: "token_data \<Rightarrow> nat \<Rightarrow> token \<Rightarrow> error + token" where
  "set_level td level tok =
     (case td_coords td (coord_key level) of
        None \<Rightarrow> Inr tok
      | Some coords \<Rightarrow>
          if cx coords \<noteq> None \<or> cy coords \<noteq> None \<or> cz coords \<noteq> None
          then set_coordinates level (cx coords) (cy coords) (cz coords) tok
          else Inr tok)"

fun set_levels :: "token_data \<Rightarrow> nat list \<Rightarrow> token \<Rightarrow> error + token" where
  "set_levels td [] tok = Inr tok"
| "set_levels td (level # ls) tok =
     (case set_level td level tok of
        Inl e \<Rightarrow> Inl e
      | Inr tok' \<Rightarrow> set_levels td ls tok')"

text \<open>
  \<open>create\<close>. The packing \<open>create_token_id\<close> is not among the sources and is a
  parameter. The counter is advanced before the token is built, so the new state is
  returned even when building the token raises.
\<close>

definition create ::
  "(int \<Rightarrow> int \<Rightarrow> int \<Rightarrow> int) \<Rightarrow> token_data \<Rightarrow> token_storage
     \<Rightarrow> (error + token) \<times> token_storage" where
  "create create_token_id td s =
     (let entity_type = (case td_entity_type td of None \<Rightarrow> 0 | Some v \<Rightarrow> v);
          domain = (case td_domain td of None \<Rightarrow> 0 | Some v \<Rightarrow> v);
          w = (case td_weight td of None \<Rightarrow> 0.5 | Some v \<Rightarrow> v);
          fr = (case td_field_radius td of None \<Rightarrow> 1 | Some v \<Rightarrow> v);
          fs = (case td_field_strength td of None \<Rightarrow> 1 | Some v \<Rightarrow> v);
          pers = (case td_persistent td of None \<Rightarrow> False | Some v \<Rightarrow> v);
          token_id = create_token_id (next_local_id s) entity_type domain;
          s1 = s\<lparr>next_local_id := next_local_id s + 1\<rparr>;
          tok0 = (Token token_id)\<lparr>weight := w, field_radius := fr, field_strength := fs\<rparr>;
          tok1 = (if pers then set_flag_persistent tok0 else tok0)
      in case set_levels td levels tok1 of
           Inl e \<Rightarrow> (Inl e, s1)
         | Inr tok \<Rightarrow> (Inr tok, s1\<lparr>storage := DAList.update token_id tok (storage s1)\<rparr>))"

definition update ::
  "int \<Rightarrow> token_data \<Rightarrow> token_storage \<Rightarrow> (error + token option) \<times> token_storage" where
  "update token_id td s =
     (case DAList.lookup (storage s) token_id of
        None \<Rightarrow> (Inr None, s)
      | Some tok0 \<Rightarrow>
         (let tok1 = (case td_weight td of None \<Rightarrow> tok0 | Some v \<Rightarrow> tok0\<lparr>weight := v\<rparr>);
              tok2 = (case td_field_radius td of None \<Rightarrow> tok1
                      | Some v \<Rightarrow> tok1\<lparr>field_radius := v\<rparr>);
              tok3 = (case td_field_strength td of None \<Rightarrow> tok2
                      | Some v \<Rightarrow> tok2\<lparr>field_strength := v\<rparr>)
          in case set_levels td levels tok3 of
               Inl e \<Rightarrow> (Inl e, s\<lparr>storage := DAList.update token_id tok3 (storage s)\<rparr>)
             | Inr tok \<Rightarrow> (Inr (Some tok), s\<lparr>storage := DAList.update token_id tok (storage s)\<rparr>)))"

definition delete :: "int \<Rightarrow> token_storage \<Rightarrow> bool \<times> token_storage" where
  "delete token_id s =
     (if DAList.lookup (storage s) token_id \<noteq> None
      then (True, s\<lparr>storage := DAList.delete token_id (storage s)\<rparr>)
      else (False, s))"

definition list_tokens :: "int \<Rightarrow> int \<Rightarrow> token_storage \<Rightarrow> token list" where
  "list_tokens limit offset s =
     (let tokens = dict_values (storage s)
      in if limit = 0 then tokens
         else
           let n = int (length tokens);
               lo = (if offset < 0 then max 0 (n + offset) else min n offset);
               e = offset + limit;
               hi = (if e < 0 then max 0 (n + e) else min n e)
           in take (nat (hi - lo)) (drop (nat lo) tokens))"

definition clear :: "token_storage \<Rightarrow> nat \<times> token_storage" where
  "clear s = (dict_len (storage s), s\<lparr>storage := DAList.empty, next_local_id := 1\<rparr>)"

definition count :: "token_storage \<Rightarrow> nat" where
  "count s = dict_len (storage s)"

text \<open>
  Sequences of calls on one storage, and the local ids that the \<open>create\<close> calls of a
  sequence consume, in order (the first argument given to \<open>create_token_id\<close>).
\<close>

datatype token_op = Create token_data | Update int token_data | Delete int | Clear

fun apply_token_op ::
  "(int \<Rightarrow> int \<Rightarrow> int \<Rightarrow> int) \<Rightarrow> token_op \<Rightarrow> token_storage \<Rightarrow> token_storage" where
  "apply_token_op mk (Create td) s = snd (create mk td s)"
| "apply_token_op mk (Update token_id td) s = snd (update token_id td s)"
| "apply_token_op mk (Delete token_id) s = snd (delete token_id s)"
| "apply_token_op mk Clear s = snd (clear s)"

fun local_ids_consumed ::
  "(int \<Rightarrow> int \<Rightarrow> int \<Rightarrow> int) \<Rightarrow> token_op list \<Rightarrow> token_storage \<Rightarrow> int list" where
  "local_ids_consumed mk [] s = []"
| "local_ids_consumed mk (Create td # ops) s =
     next_local_id s # local_ids_consumed mk ops (apply_token_op mk (Create td) s)"
| "local_ids_consumed mk (opr # ops) s = local_ids_consumed mk ops (apply_token_op mk opr s)"

text \<open>A packing of (local id, entity type, domain) used where a concrete one is needed.\<close>

definition pack_id :: "int \<Rightarrow> int \<Rightarrow> int \<Rightarrow> int" where
  "pack_id local_id entity_type domain = local_id + 4294967296 * (entity_type + 256 * domain)"

subsection \<open>The singleton\<close>

text \<open>
  \<open>InMemoryTokenStorage\<close> keeps its one instance in the class attribute
  \<open>_instance\<close>; the module keeps a reference in the global \<open>_token_storage\<close>.
  Objects live in a store addressed by position. An object made by \<open>__new__\<close> has
  \<open>_initialized = False\<close> and no other attribute until \<open>__init__\<close> has run.
\<close>

datatype storage_object = Uninitialized | Initialized token_storage

record world =
  heap :: "storage_object list"
  cls_instance :: "nat option"
  module_token_storage :: "nat option"

definition initial_world :: world where
  "initial_world = \<lparr>heap = [], cls_instance = None, module_token_storage = None\<rparr>"

definition InMemoryTokenStorage_new :: "world \<Rightarrow> nat \<times> world" where
  "InMemoryTokenStorage_new w =
     (case cls_instance w of
        None \<Rightarrow>
          let a = length (heap w)
          in (a, w\<lparr>heap := heap w @ [Uninitialized], cls_instance := Some a\<rparr>)
      | Some a \<Rightarrow> (a, w))"

definition InMemoryTokenStorage_init :: "nat \<Rightarrow> world \<Rightarrow> world" where
  "InMemoryTokenStorage_init self w =
     (if self < length (heap w) then
        (case heap w ! self of
           Initialized st \<Rightarrow> w
         | Uninitialized \<Rightarrow> w\<lparr>heap := (heap w)[self := Initialized fresh_token_storage]\<rparr>)
      else w)"

text \<open>The call \<open>InMemoryTokenStorage()\<close>: \<open>__new__\<close>, then \<open>__init__\<close> on its result.\<close>

definition InMemoryTokenStorage :: "world \<Rightarrow> nat \<times> world" where
  "InMemoryTokenStorage w =
     (let (self, w1) = InMemoryTokenStorage_new w
      in (self, InMemoryTokenStorage_init self w1))"

definition get_memory_token_storage :: "world \<Rightarrow> nat \<times> world" where
  "get_memory_token_storage w =
     (case module_token_storage w of
        None \<Rightarrow>
          let (self, w1) = InMemoryTokenStorage w
          in (self, w1\<lparr>module_token_storage := Some self\<rparr>)
      | Some self \<Rightarrow> (self, w))"

text \<open>A method call on the object at an address.\<close>

definition invoke ::
  "(int \<Rightarrow> int \<Rightarrow> int \<Rightarrow> int) \<Rightarrow> nat \<Rightarrow> token_op \<Rightarrow> world \<Rightarrow> world" where
  "invoke mk self opr w =
     (if self < length (heap w) then
        (case heap w ! self of
           Initialized st \<Rightarrow> w\<lparr>heap := (heap w)[self := Initialized (apply_token_op mk opr st)]\<rparr>
         | Uninitialized \<Rightarrow> w)
      else w)"

definition cleanup_memory_storage :: "(int \<Rightarrow> int \<Rightarrow> int \<Rightarrow> int) \<Rightarrow> world \<Rightarrow> world" where
  "cleanup_memory_storage mk w =
     (let w1 = (case module_token_storage w of
                  None \<Rightarrow> w
                | Some self \<Rightarrow> invoke mk self Clear w)
      in w1\<lparr>module_token_storage := None\<rparr>)"

text \<open>What a holder of the reference \<open>self\<close> observes.\<close>

definition instance_state :: "world \<Rightarrow> nat \<Rightarrow> token_storage option" where
  "instance_state w self =
     (if self < length (heap w) then
        (case heap w ! self of Initialized st \<Rightarrow> Some st | Uninitialized \<Rightarrow> None)
      else None)"

datatype world_op =
    Construct
  | GetMemoryTokenStorage
  | CleanupMemoryStorage
  | Invoke token_op

text \<open>
  A program: constructor calls, accessor calls, cleanup, and method calls on the
  reference that the accessor returns.
\<close>

fun apply_world_op :: "(int \<Rightarrow> int \<Rightarrow> int \<Rightarrow> int) \<Rightarrow> world_op \<Rightarrow> world \<Rightarrow> world" where
  "apply_world_op mk Construct w = snd (InMemoryTokenStorage w)"
| "apply_world_op mk GetMemoryTokenStorage w = snd (get_memory_token_storage w)"
| "apply_world_op mk CleanupMemoryStorage w = cleanup_memory_storage mk w"
| "apply_world_op mk (Invoke opr) w =
     (let (self, w1) = get_memory_token_storage w in invoke mk self opr w1)"

fun run_world :: "(int \<Rightarrow> int \<Rightarrow> int \<Rightarrow> int) \<Rightarrow> world_op list \<Rightarrow> world \<Rightarrow> world" where
  "run_world mk [] w = w"
| "run_world mk (opr # ops) w = run_world mk ops (apply_world_op mk opr w)"

section \<open>The grid engine\<close>

text \<open>
  Modelled from the spec: the engine classes \<open>Grid\<close> and \<open>GridConfig\<close> of the
  \<open>neurograph\<close> binding are not among the sources. What follows is the spec's Grid:
  a token table, one bucket index per layer (bucket key to the ids positioned there,
  a bucket that becomes empty being released), insertion and removal, and the four
  queries, each gathering candidates from the bounding cube of buckets and then filtering
  by exact Euclidean distance.
\<close>

record grid_config =
  bucket_size :: real
  density_threshold :: real
  min_field_nodes :: int

definition GridConfig :: grid_config where
  "GridConfig = \<lparr>bucket_size = 10, density_threshold = 0.5, min_field_nodes = 3\<rparr>"

type_synonym bucket_key = "int \<times> int \<times> int"
type_synonym bucket_index = "bucket_key \<rightharpoonup> int list"

record grid =
  cfg :: grid_config
  token_table :: "(int, token) dict"
  layer_index :: "nat \<Rightarrow> bucket_index"

definition Grid :: "grid_config \<Rightarrow> grid" where
  "Grid c = \<lparr>cfg = c, token_table = DAList.empty, layer_index = (\<lambda>layer. Map.empty)\<rparr>"

fun bucket_of :: "real \<Rightarrow> coord \<Rightarrow> bucket_key" where
  "bucket_of b (x, y, z) = (\<lfloor>x / b\<rfloor>, \<lfloor>y / b\<rfloor>, \<lfloor>z / b\<rfloor>)"

definition bucket_ids :: "bucket_index \<Rightarrow> bucket_key \<Rightarrow> int list" where
  "bucket_ids idx k = (case idx k of None \<Rightarrow> [] | Some ids \<Rightarrow> ids)"

definition index_insert :: "real \<Rightarrow> int \<Rightarrow> coord \<Rightarrow> bucket_index \<Rightarrow> bucket_index" where
  "index_insert b token_id c idx =
     (let k = bucket_of b c in idx(k \<mapsto> List.insert token_id (bucket_ids idx k)))"

definition index_remove :: "real \<Rightarrow> int \<Rightarrow> coord \<Rightarrow> bucket_index \<Rightarrow> bucket_index" where
  "index_remove b token_id c idx =
     (let k = bucket_of b c;
          ids = removeAll token_id (bucket_ids idx k)
      in if ids = [] then idx(k := None) else idx(k \<mapsto> ids))"

fun buckets_in_radius :: "real \<Rightarrow> coord \<Rightarrow> real \<Rightarrow> bucket_key list" where
  "buckets_in_radius b (x, y, z) r =
     concat (map (\<lambda>i. concat (map (\<lambda>j. map (\<lambda>k. (i, j, k))
        [\<lfloor>(z - r) / b\<rfloor> .. \<lfloor>(z + r) / b\<rfloor>])
        [\<lfloor>(y - r) / b\<rfloor> .. \<lfloor>(y + r) / b\<rfloor>]))
        [\<lfloor>(x - r) / b\<rfloor> .. \<lfloor>(x + r) / b\<rfloor>])"

definition unindex_token :: "token \<Rightarrow> grid \<Rightarrow> grid" where
  "unindex_token t g =
     g\<lparr>layer_index := (\<lambda>layer.
          case get_coordinates t layer of
            None \<Rightarrow> layer_index g layer
          | Some c \<Rightarrow> index_remove (bucket_size (cfg g)) (tok_id t) c (layer_index g layer))\<rparr>"

definition index_token :: "token \<Rightarrow> grid \<Rightarrow> grid" where
  "index_token t g =
     g\<lparr>layer_index := (\<lambda>layer.
          case get_coordinates t layer of
            None \<Rightarrow> layer_index g layer
          | Some c \<Rightarrow> index_insert (bucket_size (cfg g)) (tok_id t) c (layer_index g layer))\<rparr>"

definition grid_add :: "token \<Rightarrow> grid \<Rightarrow> grid" where
  "grid_add t g =
     (let g1 = (case DAList.lookup (token_table g) (tok_id t) of
                  None \<Rightarrow> g
                | Some old \<Rightarrow> unindex_token old g);
          g2 = index_token t g1
      in g2\<lparr>token_table := DAList.update (tok_id t) t (token_table g2)\<rparr>)"

definition grid_remove :: "int \<Rightarrow> grid \<Rightarrow> token option \<times> grid" where
  "grid_remove token_id g =
     (case DAList.lookup (token_table g) token_id of
        None \<Rightarrow> (None, g)
      | Some old \<Rightarrow>
          (Some old, (unindex_token old g)\<lparr>token_table := DAList.delete token_id (token_table g)\<rparr>))"

definition grid_len :: "grid \<Rightarrow> nat" where
  "grid_len g = dict_len (token_table g)"

fun distance :: "coord \<Rightarrow> coord \<Rightarrow> real" where
  "distance (x1, y1, z1) (x2, y2, z2) = sqrt ((x1 - x2)\<^sup>2 + (y1 - y2)\<^sup>2 + (z1 - z2)\<^sup>2)"

definition candidates :: "grid \<Rightarrow> nat \<Rightarrow> coord \<Rightarrow> real \<Rightarrow> int list" where
  "candidates g layer c r =
     concat (map (bucket_ids (layer_index g layer))
                 (buckets_in_radius (bucket_size (cfg g)) c r))"

text \<open>A candidate with its token and exact distance; none for an id without a coordinate.\<close>

definition measured :: "grid \<Rightarrow> nat \<Rightarrow> coord \<Rightarrow> int \<Rightarrow> (int \<times> token \<times> real) list" where
  "measured g layer c i =
     (case DAList.lookup (token_table g) i of
        None \<Rightarrow> []
      | Some t \<Rightarrow>
         (case get_coordinates t layer of
            None \<Rightarrow> []
          | Some ci \<Rightarrow> [(i, t, distance c ci)]))"

definition within_radius :: "grid \<Rightarrow> nat \<Rightarrow> coord \<Rightarrow> real \<Rightarrow> (int \<times> token \<times> real) list" where
  "within_radius g layer c r =
     filter (\<lambda>(i, t, d). d \<le> r) (concat (map (measured g layer c) (candidates g layer c r)))"

definition by_distance :: "(int \<times> real) list \<Rightarrow> (int \<times> real) list" where
  "by_distance ps = sort_key (\<lambda>(i, d). (d, i)) ps"

definition grid_find_neighbors ::
  "grid \<Rightarrow> int \<Rightarrow> int \<Rightarrow> real \<Rightarrow> int \<Rightarrow> error + (int \<times> real) list" where
  "grid_find_neighbors g token_id layer radius max_results =
     (if layer < 0 \<or> 7 < layer then Inl InvalidLayer
      else if radius < 0 then Inl InvalidRadius
      else
        case DAList.lookup (token_table g) token_id of
          None \<Rightarrow> Inl TokenNotIndexed
        | Some t \<Rightarrow>
           (case get_coordinates t (nat layer) of
              None \<Rightarrow> Inl TokenNotIndexed
            | Some c \<Rightarrow>
                let found = filter (\<lambda>(i, t, d). i \<noteq> token_id) (within_radius g (nat layer) c radius)
                in Inr (take (nat max_results) (by_distance (map (\<lambda>(i, t, d). (i, d)) found)))))"

definition grid_range_query ::
  "grid \<Rightarrow> int \<Rightarrow> real \<Rightarrow> real \<Rightarrow> real \<Rightarrow> real \<Rightarrow> error + (int \<times> real) list" where
  "grid_range_query g layer x y z radius =
     (if layer < 0 \<or> 7 < layer then Inl InvalidLayer
      else if radius < 0 then Inl InvalidRadius
      else Inr (by_distance (map (\<lambda>(i, t, d). (i, d))
                  (within_radius g (nat layer) (x, y, z) radius))))"

text \<open>
  The falloff is the linear one the spec suggests: 1 at distance 0, decreasing,
  0 from the token's own field radius on.
\<close>

definition falloff :: "real \<Rightarrow> real \<Rightarrow> real" where
  "falloff d fr = (if fr \<le> d then 0 else 1 - d / fr)"

definition grid_calculate_field_influence ::
  "grid \<Rightarrow> int \<Rightarrow> real \<Rightarrow> real \<Rightarrow> real \<Rightarrow> real \<Rightarrow> error + real" where
  "grid_calculate_field_influence g layer x y z radius =
     (if layer < 0 \<or> 7 < layer then Inl InvalidLayer
      else if radius < 0 then Inl InvalidRadius
      else Inr (sum_list (map (\<lambda>(i, t, d). field_strength t * falloff d (field_radius t))
                  (filter (\<lambda>(i, t, d). active t \<and> d \<le> field_radius t)
                     (within_radius g (nat layer) (x, y, z) radius)))))"

definition grid_calculate_density ::
  "grid \<Rightarrow> int \<Rightarrow> real \<Rightarrow> real \<Rightarrow> real \<Rightarrow> real \<Rightarrow> error + real" where
  "grid_calculate_density g layer x y z radius =
     (if layer < 0 \<or> 7 < layer then Inl InvalidLayer
      else if radius < 0 then Inl InvalidRadius
      else
        let n = length (filter (\<lambda>(i, t, d). active t)
                  (within_radius g (nat layer) (x, y, z) radius))
        in if n = 0 \<or> radius = 0 then Inr 0
           else Inr (real n / (4 / 3 * pi * radius ^ 3)))"

text \<open>Grids built by adding and removing tokens.\<close>

datatype engine_op = Add token | Remove int

fun apply_engine_op :: "engine_op \<Rightarrow> grid \<Rightarrow> grid" where
  "apply_engine_op (Add t) g = grid_add t g"
| "apply_engine_op (Remove token_id) g = snd (grid_remove token_id g)"

fun run_engine :: "engine_op list \<Rightarrow> grid \<Rightarrow> grid" where
  "run_engine [] g = g"
| "run_engine (opr # ops) g = run_engine ops (apply_engine_op opr g)"

section \<open>InMemoryGridStorage\<close>

text \<open>
  \<open>GRID_AVAILABLE\<close> is fixed when the module is imported (whether the engine binding
  could be loaded); it is the first argument of the two operations that test it.
  A stored grid object counts as true in \<open>if not grid\<close>; \<open>None\<close> is the only
  false value \<open>self._grids.get\<close> returns.
\<close>

record grid_storage =
  grids :: "(int, grid) dict"
  next_grid_id :: int

definition fresh_grid_storage :: grid_storage where
  "fresh_grid_storage = \<lparr>grids = DAList.empty, next_grid_id = 1\<rparr>"

text \<open>The \<open>config\<close> dictionary of \<open>create_grid\<close>, by key; it is true when it has a key.\<close>

record config_data =
  cd_bucket_size :: "real option"
  cd_density_threshold :: "real option"
  cd_min_field_nodes :: "int option"

definition config_given :: "config_data option \<Rightarrow> bool" where
  "config_given config =
     (case config of
        None \<Rightarrow> False
      | Some c \<Rightarrow> cd_bucket_size c \<noteq> None \<or> cd_density_threshold c \<noteq> None
                  \<or> cd_min_field_nodes c \<noteq> None)"

definition create_grid ::
  "bool \<Rightarrow> config_data option \<Rightarrow> grid_storage \<Rightarrow> error + (int \<times> grid_storage)" where
  "create_grid GRID_AVAILABLE config s =
     (if \<not> GRID_AVAILABLE then Inl (RuntimeError ''Grid not available. Install Rust bindings.'')
      else
        let grid =
              (case config of
                 Some c \<Rightarrow>
                   if config_given config then
                     Grid (GridConfig
                       \<lparr>bucket_size := (case cd_bucket_size c of None \<Rightarrow> 10 | Some v \<Rightarrow> v),
                        density_threshold :=
                          (case cd_density_threshold c of None \<Rightarrow> 0.5 | Some v \<Rightarrow> v),
                        min_field_nodes :=
                          (case cd_min_field_nodes c of None \<Rightarrow> 3 | Some v \<Rightarrow> v)\<rparr>)
                   else Grid GridConfig
               | None \<Rightarrow> Grid GridConfig);
            grid_id = next_grid_id s
        in Inr (grid_id, s\<lparr>next_grid_id := next_grid_id s + 1,
                            grids := DAList.update grid_id grid (grids s)\<rparr>))"

definition get_grid :: "int \<Rightarrow> grid_storage \<Rightarrow> grid option" where
  "get_grid grid_id s = DAList.lookup (grids s) grid_id"

definition delete_grid :: "int \<Rightarrow> grid_storage \<Rightarrow> bool \<times> grid_storage" where
  "delete_grid grid_id s =
     (if DAList.lookup (grids s) grid_id \<noteq> None
      then (True, s\<lparr>grids := DAList.delete grid_id (grids s)\<rparr>)
      else (False, s))"

definition list_grids :: "grid_storage \<Rightarrow> int list" where
  "list_grids s = dict_keys (grids s)"

text \<open>
  The conversion at the head of \<open>add_token\<close>: a new engine token with the Python
  token's id, the coordinates of every level that has them, the weight, the field radius
  and strength as scaled integers, and the active flag set.
\<close>

definition copy_level :: "token \<Rightarrow> nat \<Rightarrow> token \<Rightarrow> error + token" where
  "copy_level tok level rust_token =
     (case get_coordinates tok level of
        None \<Rightarrow> Inr rust_token
      | Some (x, y, z) \<Rightarrow> set_coordinates level (Some x) (Some y) (Some z) rust_token)"

fun copy_levels :: "token \<Rightarrow> nat list \<Rightarrow> token \<Rightarrow> error + token" where
  "copy_levels tok [] rust_token = Inr rust_token"
| "copy_levels tok (level # ls) rust_token =
     (case copy_level tok level rust_token of
        Inl e \<Rightarrow> Inl e
      | Inr rust_token' \<Rightarrow> copy_levels tok ls rust_token')"

definition to_rust_token :: "token \<Rightarrow> error + token" where
  "to_rust_token tok =
     (case copy_levels tok levels (Token (tok_id tok)) of
        Inl e \<Rightarrow> Inl e
      | Inr rust_token \<Rightarrow>
          Inr (set_active True
                (rust_token\<lparr>weight := weight tok,
                   field_radius := of_int (py_int (field_radius tok * 100)),
                   field_strength := of_int (py_int (field_strength tok * 255))\<rparr>)))"

definition add_token ::
  "bool \<Rightarrow> int \<Rightarrow> token \<Rightarrow> grid_storage \<Rightarrow> error + (bool \<times> grid_storage)" where
  "add_token GRID_AVAILABLE grid_id tok s =
     (if \<not> GRID_AVAILABLE then Inl (RuntimeError ''Grid not available.'')
      else
        case DAList.lookup (grids s) grid_id of
          None \<Rightarrow> Inr (False, s)
        | Some grid \<Rightarrow>
           (case to_rust_token tok of
              Inl e \<Rightarrow> Inl e
            | Inr rust_token \<Rightarrow>
                Inr (True, s\<lparr>grids := DAList.update grid_id (grid_add rust_token grid) (grids s)\<rparr>)))"

definition remove_token :: "int \<Rightarrow> int \<Rightarrow> grid_storage \<Rightarrow> bool \<times> grid_storage" where
  "remove_token grid_id token_id s =
     (case DAList.lookup (grids s) grid_id of
        None \<Rightarrow> (False, s)
      | Some grid \<Rightarrow>
          let (removed, grid') = grid_remove token_id grid
          in (removed \<noteq> None, s\<lparr>grids := DAList.update grid_id grid' (grids s)\<rparr>))"

definition find_neighbors ::
  "int \<Rightarrow> int \<Rightarrow> int \<Rightarrow> real \<Rightarrow> int \<Rightarrow> grid_storage \<Rightarrow> error + (int \<times> real) list" where
  "find_neighbors grid_id token_id space radius max_results s =
     (case DAList.lookup (grids s) grid_id of
        None \<Rightarrow> Inr []
      | Some grid \<Rightarrow> grid_find_neighbors grid token_id space radius max_results)"

definition range_query ::
  "int \<Rightarrow> int \<Rightarrow> real \<Rightarrow> real \<Rightarrow> real \<Rightarrow> real \<Rightarrow> grid_storage \<Rightarrow> error + (int \<times> real) list" where
  "range_query grid_id space x y z radius s =
     (case DAList.lookup (grids s) grid_id of
        None \<Rightarrow> Inr []
      | Some grid \<Rightarrow> grid_range_query grid space x y z radius)"

definition calculate_field_influence ::
  "int \<Rightarrow> int \<Rightarrow> real \<Rightarrow> real \<Rightarrow> real \<Rightarrow> real \<Rightarrow> grid_storage \<Rightarrow> error + real" where
  "calculate_field_influence grid_id space x y z radius s =
     (case DAList.lookup (grids s) grid_id of
        None \<Rightarrow> Inr 0
      | Some grid \<Rightarrow> grid_calculate_field_influence grid space x y z radius)"

definition calculate_density ::
  "int \<Rightarrow> int \<Rightarrow> real \<Rightarrow> real \<Rightarrow> real \<Rightarrow> real \<Rightarrow> grid_storage \<Rightarrow> error + real" where
  "calculate_density grid_id space x y z radius s =
     (case DAList.lookup (grids s) grid_id of
        None \<Rightarrow> Inr 0
      | Some grid \<Rightarrow> grid_calculate_density grid space x y z radius)"

text \<open>
  Sequences of calls on one grid storage, and the ids that the successful
  \<open>create_grid\<close> calls of a sequence return, in order.
\<close>

datatype grid_op =
    CreateGrid "config_data option"
  | DeleteGrid int
  | AddToken int token
  | RemoveToken int int

fun apply_grid_op :: "bool \<Rightarrow> grid_op \<Rightarrow> grid_storage \<Rightarrow> grid_storage" where
  "apply_grid_op av (CreateGrid config) s =
     (case create_grid av config s of Inl e \<Rightarrow> s | Inr (grid_id, s') \<Rightarrow> s')"
| "apply_grid_op av (DeleteGrid grid_id) s = snd (delete_grid grid_id s)"
| "apply_grid_op av (AddToken grid_id tok) s =
     (case add_token av grid_id tok s of Inl e \<Rightarrow> s | Inr (ok, s') \<Rightarrow> s')"
| "apply_grid_op av (RemoveToken grid_id token_id) s = snd (remove_token grid_id token_id s)"

fun grid_ids_created :: "bool \<Rightarrow> grid_op list \<Rightarrow> grid_storage \<Rightarrow> int list" where
  "grid_ids_created av [] s = []"
| "grid_ids_created av (CreateGrid config # ops) s =
     (case create_grid av config s of
        Inl e \<Rightarrow> grid_ids_created av ops s
      | Inr (grid_id, s') \<Rightarrow> grid_id # grid_ids_created av ops s')"
| "grid_ids_created av (opr # ops) s = grid_ids_created av ops (apply_grid_op av opr s)"

section \<open>Sample inputs\<close>

text \<open>The empty \<open>token_data\<close> dictionary.\<close>

definition no_token_data :: token_data where
  "no_token_data = \<lparr>td_entity_type = None, td_domain = None, td_weight = None,
     td_field_radius = None, td_field_strength = None, td_persistent = None,
     td_coords = Map.empty\<rparr>"

text \<open>A storage holding one default grid, created first.\<close>

definition one_grid_storage :: grid_storage where
  "one_grid_storage =
     \<lparr>grids = DAList.update 1 (Grid GridConfig) DAList.empty, next_grid_id = 2\<rparr>"


text \<open>
  The grid of the spec's scenario: bucket size 10 and, in layer 0, token 1 at (0,0,0),
  token 2 at (3,4,0) and token 3 at (100,100,100).
\<close>

definition at_layer0 :: "int \<Rightarrow> coord \<Rightarrow> token" where
  "at_layer0 i c = (Token i)\<lparr>coordinates := (\<lambda>layer. None)(0 \<mapsto> c)\<rparr>"

definition sample_grid :: grid where
  "sample_grid =
     run_engine [Add (at_layer0 1 (0, 0, 0)), Add (at_layer0 2 (3, 4, 0)),
                 Add (at_layer0 3 (100, 100, 100))] (Grid GridConfig)"

definition sample_grid_storage :: grid_storage where
  "sample_grid_storage = \<lparr>grids = DAList.update 1 sample_grid DAList.empty, next_grid_id = 2\<rparr>"

section \<open>Invariants\<close>

text \<open>
  The class attribute, once set, refers to an initialized object of the store, and the
  module global is unset or refers to that same object.
\<close>

definition singleton_ok :: "world \<Rightarrow> bool" where
  "singleton_ok w =
     (case cls_instance w of
        None \<Rightarrow> module_token_storage w = None
      | Some a \<Rightarrow> a < length (heap w) \<and> (\<exists>st. heap w ! a = Initialized st) \<and>
                 (module_token_storage w = None \<or> module_token_storage w = Some a))"

text \<open>
  A token is positioned at a coordinate in a layer when the table holds it with that
  coordinate. The index agrees with the table when the bucket size is positive, every
  token is stored under its own id, no bucket lists an id twice, and a bucket lists
  exactly the ids of the tokens positioned in it.
\<close>

definition positioned :: "grid \<Rightarrow> nat \<Rightarrow> int \<Rightarrow> coord \<Rightarrow> bool" where
  "positioned g layer i c =
     (\<exists>t. DAList.lookup (token_table g) i = Some t \<and> get_coordinates t layer = Some c)"

definition index_ok :: "grid \<Rightarrow> bool" where
  "index_ok g =
     (0 < bucket_size (cfg g) \<and>
      (\<forall>i t. DAList.lookup (token_table g) i = Some t \<longrightarrow> tok_id t = i) \<and>
      (\<forall>layer k. distinct (bucket_ids (layer_index g layer) k)) \<and>
      (\<forall>layer k i. i \<in> set (bucket_ids (layer_index g layer) k) \<longleftrightarrow>
          (\<exists>c. positioned g layer i c \<and> bucket_of (bucket_size (cfg g)) c = k)))"

text \<open>The order of the results: by distance, then by token id.\<close>

definition nearer :: "int \<times> real \<Rightarrow> int \<times> real \<Rightarrow> bool" where
  "nearer p q = (snd p < snd q \<or> (snd p = snd q \<and> fst p < fst q))"

section \<open>Properties of the token storage\<close>

lemma set_coordinates_fields:
  "layer < 8 \<Longrightarrow> \<exists>t'. set_coordinates layer x y z t = Inr t' \<and> tok_id t' = tok_id t \<and>
     weight t' = weight t \<and> field_radius t' = field_radius t \<and>
     field_strength t' = field_strength t \<and> persistent t' = persistent t \<and> active t' = active t"
  by (simp add: set_coordinates_def Let_def split: prod.splits)

lemma set_level_fields:
  "level < 8 \<Longrightarrow> \<exists>t'. set_level td level t = Inr t' \<and> tok_id t' = tok_id t \<and>
     weight t' = weight t \<and> field_radius t' = field_radius t \<and>
     field_strength t' = field_strength t \<and> persistent t' = persistent t \<and> active t' = active t"
  using set_coordinates_fields [of level]
  by (simp add: set_level_def split: option.splits)

lemma set_levels_fields:
  "\<forall>l \<in> set ls. l < 8 \<Longrightarrow> \<exists>t'. set_levels td ls t = Inr t' \<and> tok_id t' = tok_id t \<and>
     weight t' = weight t \<and> field_radius t' = field_radius t \<and>
     field_strength t' = field_strength t \<and> persistent t' = persistent t \<and> active t' = active t"
proof (induction ls arbitrary: t)
  case Nil
  then show ?case by simp
next
  case (Cons l ls)
  then have "l < 8" by simp
  from set_level_fields [OF this, of td t] obtain t1 where
    t1: "set_level td l t = Inr t1" "tok_id t1 = tok_id t" "weight t1 = weight t"
      "field_radius t1 = field_radius t" "field_strength t1 = field_strength t"
      "persistent t1 = persistent t" "active t1 = active t"
    by blast
  from Cons have "\<forall>l \<in> set ls. l < 8" by simp
  from Cons.IH [OF this, of t1] t1 show ?case by auto
qed

lemma levels_in_range: "\<forall>l \<in> set levels. l < 8"
  by (simp add: levels_def)

lemma create_result:
  "\<exists>tok. create mk td s =
     (Inr tok, s\<lparr>next_local_id := next_local_id s + 1,
               storage := DAList.update (tok_id tok) tok (storage s)\<rparr>) \<and>
     tok_id tok = mk (next_local_id s) (case td_entity_type td of None \<Rightarrow> 0 | Some v \<Rightarrow> v)
                    (case td_domain td of None \<Rightarrow> 0 | Some v \<Rightarrow> v) \<and>
     weight tok = (case td_weight td of None \<Rightarrow> 0.5 | Some v \<Rightarrow> v) \<and>
     field_radius tok = (case td_field_radius td of None \<Rightarrow> 1 | Some v \<Rightarrow> v) \<and>
     field_strength tok = (case td_field_strength td of None \<Rightarrow> 1 | Some v \<Rightarrow> v)"
proof -
  define token_id where
    "token_id = mk (next_local_id s) (case td_entity_type td of None \<Rightarrow> 0 | Some v \<Rightarrow> v)
                    (case td_domain td of None \<Rightarrow> 0 | Some v \<Rightarrow> v)"
  define tok0 where
    "tok0 = (Token token_id)\<lparr>weight := (case td_weight td of None \<Rightarrow> 0.5 | Some v \<Rightarrow> v),
       field_radius := (case td_field_radius td of None \<Rightarrow> 1 | Some v \<Rightarrow> v),
       field_strength := (case td_field_strength td of None \<Rightarrow> 1 | Some v \<Rightarrow> v)\<rparr>"
  define tok1 where
    "tok1 = (if (case td_persistent td of None \<Rightarrow> False | Some v \<Rightarrow> v)
             then set_flag_persistent tok0 else tok0)"
  have unfolded: "create mk td s =
     (case set_levels td levels tok1 of
        Inl e \<Rightarrow> (Inl e, s\<lparr>next_local_id := next_local_id s + 1\<rparr>)
      | Inr tok \<Rightarrow> (Inr tok, s\<lparr>next_local_id := next_local_id s + 1,
                        storage := DAList.update token_id tok (storage s)\<rparr>))"
    unfolding create_def Let_def tok1_def tok0_def token_id_def by (simp split: sum.split)
  from set_levels_fields [OF levels_in_range, of td tok1] obtain tok where
    tok: "set_levels td levels tok1 = Inr tok" "tok_id tok = tok_id tok1" "weight tok = weight tok1"
      "field_radius tok = field_radius tok1" "field_strength tok = field_strength tok1"
    by blast
  have "tok_id tok1 = token_id" "weight tok1 = (case td_weight td of None \<Rightarrow> 0.5 | Some v \<Rightarrow> v)"
    "field_radius tok1 = (case td_field_radius td of None \<Rightarrow> 1 | Some v \<Rightarrow> v)"
    "field_strength tok1 = (case td_field_strength td of None \<Rightarrow> 1 | Some v \<Rightarrow> v)"
    by (simp_all add: tok1_def tok0_def Token_def set_flag_persistent_def)
  with tok unfolded show ?thesis
    by (intro exI [of _ tok]) (simp add: token_id_def)
qed

lemma length_alist_delete:
  "distinct (map fst xs) \<Longrightarrow> map_of xs k = Some v \<Longrightarrow> length (AList.delete k xs) + 1 = length xs"
proof (induction xs)
  case Nil
  then show ?case by simp
next
  case (Cons p xs)
  show ?case
  proof (cases "fst p = k")
    case True
    with Cons.prems have "k \<notin> fst ` set xs" by auto
    then have "AList.delete k xs = xs" by simp
    with True show ?thesis by (cases p) simp
  next
    case False
    with Cons.prems have "map_of xs k = Some v" "distinct (map fst xs)" by (cases p; simp)+
    with Cons.IH have "length (AList.delete k xs) + 1 = length xs" by simp
    with False show ?thesis by (cases p) auto
  qed
qed

lemma dict_len_delete:
  "DAList.lookup d k = Some v \<Longrightarrow> dict_len (DAList.delete k d) + 1 = dict_len d"
  unfolding dict_len_def
  using length_alist_delete [of "DAList.impl_of d" k v]
  by (simp add: DAList.delete.rep_eq DAList.lookup.rep_eq)

text \<open>
  C9. \<open>delete\<close> returns True exactly when the token id is in the storage; then
  \<open>get\<close> of that id gives None afterwards and \<open>count\<close> is one less; when it returns
  False the storage is unchanged.
\<close>

theorem delete_spec:
  "delete token_id s = (b, s') \<Longrightarrow>
     (b \<longleftrightarrow> get token_id s \<noteq> None) \<and>
     (b \<longrightarrow> get token_id s' = None \<and> count s' + 1 = count s) \<and>
     (\<not> b \<longrightarrow> s' = s)"
  using dict_len_delete [of "storage s" token_id]
  by (auto simp: delete_def get_def count_def split: if_splits)


text \<open>
  C8. A token created from a \<open>token_data\<close> dictionary without the keys
  \<open>weight\<close>, \<open>field_radius\<close> and \<open>field_strength\<close> is created, stored under its id,
  and has weight 0.5, field radius 1.0 and field strength 1.0.
\<close>

theorem create_defaults:
  "td_weight td = None \<Longrightarrow> td_field_radius td = None \<Longrightarrow> td_field_strength td = None \<Longrightarrow>
   \<exists>tok s'. create mk td s = (Inr tok, s') \<and> get (tok_id tok) s' = Some tok \<and>
      weight tok = 0.5 \<and> field_radius tok = 1 \<and> field_strength tok = 1"
  using create_result [of mk td s] by (auto simp: get_def)

theorem create_defaults_witness:
  "td_weight no_token_data = None \<and> td_field_radius no_token_data = None \<and>
   td_field_strength no_token_data = None \<and>
   (\<exists>tok s'. create pack_id no_token_data fresh_token_storage = (Inr tok, s') \<and>
      get (tok_id tok) s' = Some tok \<and>
      weight tok = 0.5 \<and> field_radius tok = 1 \<and> field_strength tok = 1)"
  using create_defaults [of no_token_data pack_id fresh_token_storage]
  by (simp add: no_token_data_def)

lemma create_eval:
  "create pack_id no_token_data s =
     (Inr (Token (next_local_id s)\<lparr>weight := 0.5\<rparr>),
      s\<lparr>next_local_id := next_local_id s + 1,
        storage := DAList.update (next_local_id s) (Token (next_local_id s)\<lparr>weight := 0.5\<rparr>) (storage s)\<rparr>)"
  by (simp add: create_def Let_def no_token_data_def pack_id_def levels_def set_level_def Token_def)

theorem delete_spec_witness:
  "delete 1 (snd (create pack_id no_token_data fresh_token_storage)) =
     (True, fresh_token_storage\<lparr>next_local_id := 2\<rparr>) \<and>
   get 1 (snd (create pack_id no_token_data fresh_token_storage)) \<noteq> None \<and>
   get 1 (fresh_token_storage\<lparr>next_local_id := 2\<rparr>) = None \<and>
   count (fresh_token_storage\<lparr>next_local_id := 2\<rparr>) + 1
     = count (snd (create pack_id no_token_data fresh_token_storage))"
proof -
  have d: "delete 1 (snd (create pack_id no_token_data fresh_token_storage)) =
     (True, fresh_token_storage\<lparr>next_local_id := 2\<rparr>)"
    by (simp add: create_eval delete_def fresh_token_storage_def alist_eq_iff
        DAList.delete.rep_eq DAList.update.rep_eq DAList.empty.rep_eq)
  from delete_spec [OF d] d show ?thesis by simp
qed

lemma create_next_local_id: "next_local_id (snd (create mk td s)) = next_local_id s + 1"
  using create_result [of mk td s] by auto

lemma update_next_local_id: "next_local_id (snd (update token_id td s)) = next_local_id s"
  by (simp add: update_def Let_def split: option.splits sum.splits)

lemma delete_next_local_id: "next_local_id (snd (delete token_id s)) = next_local_id s"
  by (simp add: delete_def)

lemma apply_token_op_next_local_id:
  "opr \<noteq> Clear \<Longrightarrow> next_local_id s \<le> next_local_id (apply_token_op mk opr s)"
  by (cases opr)
     (simp_all add: create_next_local_id update_next_local_id delete_next_local_id)

lemma local_ids_consumed_lower:
  "Clear \<notin> set ops \<Longrightarrow> \<forall>i \<in> set (local_ids_consumed mk ops s). next_local_id s \<le> i"
proof (induction ops arbitrary: s)
  case Nil
  then show ?case by simp
next
  case (Cons opr ops)
  then have nc: "opr \<noteq> Clear" "Clear \<notin> set ops" by auto
  have step: "next_local_id s \<le> next_local_id (apply_token_op mk opr s)"
    using nc(1) by (rule apply_token_op_next_local_id)
  have rest: "\<forall>i \<in> set (local_ids_consumed mk ops (apply_token_op mk opr s)). next_local_id s \<le> i"
    using Cons.IH [OF nc(2), of "apply_token_op mk opr s"] step by auto
  show ?case using rest nc(1) by (cases opr) auto
qed

lemma local_ids_consumed_increasing:
  "Clear \<notin> set ops \<Longrightarrow> sorted_wrt (<) (local_ids_consumed mk ops s)"
proof (induction ops arbitrary: s)
  case Nil
  then show ?case by simp
next
  case (Cons opr ops)
  then have nc: "opr \<noteq> Clear" "Clear \<notin> set ops" by auto
  have ih: "sorted_wrt (<) (local_ids_consumed mk ops (apply_token_op mk opr s))"
    using Cons.IH [OF nc(2)] .
  show ?case
  proof (cases opr)
    case (Create td)
    have "\<forall>i \<in> set (local_ids_consumed mk ops (apply_token_op mk (Create td) s)).
            next_local_id s + 1 \<le> i"
      using local_ids_consumed_lower [OF nc(2), of mk "apply_token_op mk (Create td) s"]
      by (simp add: create_next_local_id)
    then have "\<forall>i \<in> set (local_ids_consumed mk ops (apply_token_op mk (Create td) s)).
            next_local_id s < i" by auto
    with ih Create show ?thesis by simp
  next
    case (Update token_id td)
    with ih show ?thesis by simp
  next
    case (Delete token_id)
    with ih show ?thesis by simp
  next
    case Clear
    with nc show ?thesis by simp
  qed
qed

text \<open>
  C6 (as amended). In a sequence of \<open>create\<close>, \<open>update\<close> and \<open>delete\<close> calls
  without \<open>clear\<close>, each \<open>create\<close> consumes a local id strictly greater than every
  local id consumed before it, so these are pairwise distinct and none is below the
  counter at the start; \<open>clear\<close> puts the counter back to 1.
\<close>

theorem local_ids_increase_between_clears:
  "Clear \<notin> set ops \<Longrightarrow>
     sorted_wrt (<) (local_ids_consumed mk ops s) \<and>
     distinct (local_ids_consumed mk ops s) \<and>
     (\<forall>i \<in> set (local_ids_consumed mk ops s). next_local_id s \<le> i) \<and>
     next_local_id (snd (clear (fold (apply_token_op mk) ops s))) = 1"
  using local_ids_consumed_increasing [of ops mk s] local_ids_consumed_lower [of ops mk s]
  by (simp add: strict_sorted_iff clear_def)

text \<open>
  C6 as stated fails: after \<open>clear\<close> the next \<open>create\<close> consumes local id 1 again.
\<close>

theorem local_ids_repeat_after_clear:
  "local_ids_consumed pack_id [Create no_token_data, Clear, Create no_token_data]
     fresh_token_storage = [1, 1] \<and>
   \<not> sorted_wrt (<) (local_ids_consumed pack_id
     [Create no_token_data, Clear, Create no_token_data] fresh_token_storage)"
  by (simp add: create_eval clear_def fresh_token_storage_def)

theorem local_ids_increase_between_clears_witness:
  "Clear \<notin> set [Create no_token_data, Delete 1, Create no_token_data] \<and>
   local_ids_consumed pack_id [Create no_token_data, Delete 1, Create no_token_data]
     fresh_token_storage = [1, 2] \<and>
   sorted_wrt (<) (local_ids_consumed pack_id
     [Create no_token_data, Delete 1, Create no_token_data] fresh_token_storage)"
  using local_ids_increase_between_clears
    [of "[Create no_token_data, Delete 1, Create no_token_data]" pack_id fresh_token_storage]
  by (simp add: create_eval delete_def fresh_token_storage_def)

section \<open>Properties of the grid storage\<close>

lemma dict_keys_delete: "dict_keys (DAList.delete k d) = removeAll k (dict_keys d)"
  by (simp add: dict_keys_def DAList.delete.rep_eq delete_keys)

lemma dict_keys_lookup: "k \<in> set (dict_keys d) \<longleftrightarrow> DAList.lookup d k \<noteq> None"
  by (simp add: dict_keys_def DAList.lookup.rep_eq map_of_eq_None_iff)

text \<open>
  C7. \<open>delete_grid\<close> returns True exactly when the id is in the storage; then
  \<open>get_grid\<close> of it gives None, \<open>list_grids\<close> has lost it and nothing else (the other
  ids keep their order), every other id is bound to the same grid as before and the id
  counter is untouched; when it returns False the storage is unchanged.
\<close>

theorem delete_grid_spec:
  "delete_grid g s = (b, s') \<Longrightarrow>
     (b \<longleftrightarrow> get_grid g s \<noteq> None) \<and>
     (b \<longrightarrow> get_grid g s' = None \<and> g \<notin> set (list_grids s') \<and>
            list_grids s' = removeAll g (list_grids s) \<and>
            (\<forall>h. h \<noteq> g \<longrightarrow> get_grid h s' = get_grid h s \<and>
                   (h \<in> set (list_grids s') \<longleftrightarrow> h \<in> set (list_grids s))) \<and>
            next_grid_id s' = next_grid_id s) \<and>
     (\<not> b \<longrightarrow> s' = s)"
  by (auto simp: delete_grid_def get_grid_def list_grids_def dict_keys_delete split: if_splits)

theorem delete_grid_spec_witness:
  "delete_grid 1 one_grid_storage = (True, fresh_grid_storage\<lparr>next_grid_id := 2\<rparr>) \<and>
   get_grid 1 one_grid_storage \<noteq> None \<and>
   get_grid 1 (fresh_grid_storage\<lparr>next_grid_id := 2\<rparr>) = None \<and>
   list_grids (fresh_grid_storage\<lparr>next_grid_id := 2\<rparr>) = removeAll 1 (list_grids one_grid_storage)"
proof -
  have d: "delete_grid 1 one_grid_storage = (True, fresh_grid_storage\<lparr>next_grid_id := 2\<rparr>)"
    by (simp add: delete_grid_def one_grid_storage_def fresh_grid_storage_def alist_eq_iff
        DAList.delete.rep_eq DAList.update.rep_eq DAList.empty.rep_eq)
  from delete_grid_spec [OF d] d show ?thesis by simp
qed

text \<open>
  C2 (as amended). For a grid id that is not in the storage, \<open>find_neighbors\<close> and
  \<open>range_query\<close> return the empty list, \<open>calculate_field_influence\<close> and
  \<open>calculate_density\<close> return 0.0 and \<open>remove_token\<close> returns False, none of them
  raising and none changing the storage; \<open>add_token\<close> returns False when the engine binding is
  available and raises RuntimeError when it is not.
\<close>

theorem unknown_grid_spec:
  "get_grid grid_id s = None \<Longrightarrow>
     find_neighbors grid_id token_id space radius max_results s = Inr [] \<and>
     range_query grid_id space x y z radius s = Inr [] \<and>
     calculate_field_influence grid_id space x y z radius s = Inr 0 \<and>
     calculate_density grid_id space x y z radius s = Inr 0 \<and>
     remove_token grid_id token_id s = (False, s) \<and>
     add_token True grid_id tok s = Inr (False, s) \<and>
     add_token False grid_id tok s = Inl (RuntimeError ''Grid not available.'')"
  by (simp add: get_grid_def find_neighbors_def range_query_def calculate_field_influence_def
      calculate_density_def remove_token_def add_token_def)

theorem unknown_grid_spec_witness:
  "get_grid 1 (snd (delete_grid 1 one_grid_storage)) = None \<and>
   find_neighbors 1 7 0 5 10 (snd (delete_grid 1 one_grid_storage)) = Inr [] \<and>
   calculate_density 1 0 0 0 0 5 (snd (delete_grid 1 one_grid_storage)) = Inr 0 \<and>
   add_token True 1 (Token 7) (snd (delete_grid 1 one_grid_storage))
     = Inr (False, snd (delete_grid 1 one_grid_storage))"
proof -
  have g: "get_grid 1 (snd (delete_grid 1 one_grid_storage)) = None"
    by (simp add: delete_grid_def get_grid_def one_grid_storage_def)
  from unknown_grid_spec [OF g] g show ?thesis by simp
qed

text \<open>
  C2 as stated fails: without the engine binding, \<open>add_token\<close> on an unknown grid
  id raises RuntimeError instead of returning False.
\<close>

theorem add_token_unknown_grid_raises:
  "get_grid 1 fresh_grid_storage = None \<and>
   add_token False 1 (Token 7) fresh_grid_storage = Inl (RuntimeError ''Grid not available.'')"
  by (simp add: add_token_def get_grid_def fresh_grid_storage_def)

text \<open>
  C4 (as amended). \<open>create_grid\<close> has no cap: whatever the number of grids held, it
  succeeds when the engine binding is available, returning the next id and binding it to
  a new grid; it fails only when the binding is not available, with RuntimeError.
\<close>

theorem create_grid_no_cap:
  "(\<exists>grid. create_grid True config s =
      Inr (next_grid_id s, s\<lparr>next_grid_id := next_grid_id s + 1,
             grids := DAList.update (next_grid_id s) grid (grids s)\<rparr>)) \<and>
   create_grid False config s = Inl (RuntimeError ''Grid not available. Install Rust bindings.'')"
  by (auto simp: create_grid_def Let_def)

theorem create_grid_no_cap_witness:
  "(\<exists>grid. create_grid True None one_grid_storage =
      Inr (2, one_grid_storage\<lparr>next_grid_id := 3,
             grids := DAList.update 2 grid (grids one_grid_storage)\<rparr>))"
  using create_grid_no_cap [of None one_grid_storage]
  by (simp add: one_grid_storage_def)

text \<open>
  C4 as stated fails: with a cap of one instance and one grid held, \<open>create_grid\<close>
  succeeds and the storage then holds two grids.
\<close>

theorem create_grid_past_cap:
  "dict_len (grids one_grid_storage) = 1 \<and>
   create_grid True None one_grid_storage =
     Inr (2, one_grid_storage\<lparr>next_grid_id := 3,
            grids := DAList.update 2 (Grid GridConfig) (grids one_grid_storage)\<rparr>) \<and>
   list_grids (one_grid_storage\<lparr>next_grid_id := 3,
            grids := DAList.update 2 (Grid GridConfig) (grids one_grid_storage)\<rparr>) = [1, 2]"
  by (simp add: create_grid_def one_grid_storage_def dict_len_def list_grids_def dict_keys_def
      DAList.update.rep_eq DAList.empty.rep_eq)

lemma create_grid_next:
  "create_grid av config s = Inr (grid_id, s') \<Longrightarrow>
     grid_id = next_grid_id s \<and> next_grid_id s' = next_grid_id s + 1"
  by (auto simp: create_grid_def Let_def split: if_splits)

lemma apply_grid_op_next:
  "\<forall>config. opr \<noteq> CreateGrid config \<Longrightarrow> next_grid_id (apply_grid_op av opr s) = next_grid_id s"
  by (cases opr)
     (auto simp: delete_grid_def add_token_def remove_token_def
        split: option.splits sum.splits prod.splits if_splits)

lemma grid_ids_created_from:
  "grid_ids_created av ops s =
     map (\<lambda>k. next_grid_id s + int k) [0..<length (grid_ids_created av ops s)]"
proof (induction ops arbitrary: s)
  case Nil
  then show ?case by simp
next
  case (Cons opr ops)
  show ?case
  proof (cases "\<exists>config. opr = CreateGrid config")
    case True
    then obtain config where opr: "opr = CreateGrid config" by blast
    show ?thesis
    proof (cases "create_grid av config s")
      case (Inl e)
      with opr Cons.IH [of s] show ?thesis by simp
    next
      case (Inr r)
      obtain grid_id s' where r: "r = (grid_id, s')" by (cases r)
      from create_grid_next [of av config s grid_id s'] Inr r
      have n: "grid_id = next_grid_id s" "next_grid_id s' = next_grid_id s + 1" by simp_all
      let ?rest = "grid_ids_created av ops s'"
      have "?rest = map (\<lambda>k. next_grid_id s + 1 + int k) [0..<length ?rest]"
        using Cons.IH [of s'] n by simp
      also have "\<dots> = map (\<lambda>k. next_grid_id s + int k) [1..<Suc (length ?rest)]"
        by (simp add: map_Suc_upt [symmetric] del: upt_Suc)
      finally have rest: "?rest = map (\<lambda>k. next_grid_id s + int k) [1..<Suc (length ?rest)]" .
      have "grid_ids_created av (opr # ops) s = next_grid_id s # ?rest"
        using opr Inr r n by simp
      also have "\<dots> = map (\<lambda>k. next_grid_id s + int k) (0 # [1..<Suc (length ?rest)])"
        using rest by simp
      also have "0 # [1..<Suc (length ?rest)] = [0..<Suc (length ?rest)]"
        by (simp add: upt_conv_Cons del: upt_Suc)
      finally show ?thesis using opr Inr r by simp
    qed
  next
    case False
    then have nc: "\<forall>config. opr \<noteq> CreateGrid config" by blast
    then have "grid_ids_created av (opr # ops) s = grid_ids_created av ops (apply_grid_op av opr s)"
      by (cases opr) simp_all
    with Cons.IH [of "apply_grid_op av opr s"] apply_grid_op_next [OF nc, of av s]
    show ?thesis by simp
  qed
qed

text \<open>
  C5. On a fresh storage, whatever calls come in between (deletions included), the
  n-th successful \<open>create_grid\<close> returns the id n, counting from 1; the ids returned are
  strictly increasing, so no id is returned twice.
\<close>

theorem grid_ids_sequential:
  "(\<forall>n < length (grid_ids_created av ops fresh_grid_storage).
      grid_ids_created av ops fresh_grid_storage ! n = int n + 1) \<and>
   sorted_wrt (<) (grid_ids_created av ops fresh_grid_storage)"
proof -
  let ?ids = "grid_ids_created av ops fresh_grid_storage"
  have eq: "?ids = map (\<lambda>k. 1 + int k) [0..<length ?ids]"
    using grid_ids_created_from [of av ops fresh_grid_storage]
    by (simp add: fresh_grid_storage_def)
  have nth: "\<forall>n < length ?ids. ?ids ! n = int n + 1"
  proof (intro allI impI)
    fix n assume n: "n < length ?ids"
    have "?ids ! n = map (\<lambda>k. 1 + int k) [0..<length ?ids] ! n" using eq by simp
    also have "\<dots> = int n + 1" using n by simp
    finally show "?ids ! n = int n + 1" .
  qed
  have "sorted_wrt (<) (map (\<lambda>k. 1 + int k) [0..<length ?ids])"
    by (simp add: sorted_wrt_map sorted_wrt_upt)
  with eq have "sorted_wrt (<) ?ids" by simp
  with nth show ?thesis by simp
qed

theorem grid_ids_sequential_witness:
  "grid_ids_created True [CreateGrid None, DeleteGrid 1, CreateGrid None] fresh_grid_storage
     = [1, 2] \<and>
   grid_ids_created True [CreateGrid None, DeleteGrid 1, CreateGrid None] fresh_grid_storage ! 1
     = int 1 + 1 \<and>
   sorted_wrt (<) (grid_ids_created True [CreateGrid None, DeleteGrid 1, CreateGrid None]
     fresh_grid_storage)"
proof -
  have ids: "grid_ids_created True [CreateGrid None, DeleteGrid 1, CreateGrid None]
      fresh_grid_storage = [1, 2]"
    by (simp add: create_grid_def delete_grid_def fresh_grid_storage_def Let_def)
  from grid_ids_sequential [of True "[CreateGrid None, DeleteGrid 1, CreateGrid None]"] ids
  show ?thesis by simp
qed








section \<open>Properties of the singleton\<close>

lemma singleton_ok_initial: "singleton_ok initial_world"
  by (simp add: singleton_ok_def initial_world_def)

lemma construct_again:
  "singleton_ok w \<Longrightarrow> cls_instance w = Some self \<Longrightarrow> InMemoryTokenStorage w = (self, w)"
  by (auto simp: singleton_ok_def InMemoryTokenStorage_def InMemoryTokenStorage_new_def
      InMemoryTokenStorage_init_def)

lemma construct_first:
  "cls_instance w = None \<Longrightarrow>
     InMemoryTokenStorage w =
       (length (heap w),
        w\<lparr>heap := heap w @ [Initialized fresh_token_storage],
          cls_instance := Some (length (heap w))\<rparr>)"
  by (simp add: InMemoryTokenStorage_def InMemoryTokenStorage_new_def
      InMemoryTokenStorage_init_def Let_def)

lemma singleton_ok_construct: "singleton_ok w \<Longrightarrow> singleton_ok (snd (InMemoryTokenStorage w))"
proof (cases "cls_instance w")
  case None
  assume "singleton_ok w"
  with None show ?thesis by (simp add: construct_first singleton_ok_def)
next
  case (Some a)
  assume "singleton_ok w"
  with Some show ?thesis by (simp add: construct_again)
qed

lemma accessor_again:
  "singleton_ok w \<Longrightarrow> cls_instance w = Some self \<Longrightarrow>
     get_memory_token_storage w = (self, w\<lparr>module_token_storage := Some self\<rparr>)"
proof -
  assume ok: "singleton_ok w" and c: "cls_instance w = Some self"
  show ?thesis
  proof (cases "module_token_storage w")
    case None
    with ok c show ?thesis by (simp add: get_memory_token_storage_def construct_again)
  next
    case (Some a)
    with ok c have "a = self" by (simp add: singleton_ok_def)
    with Some show ?thesis by (simp add: get_memory_token_storage_def)
  qed
qed

lemma singleton_ok_accessor:
  "singleton_ok w \<Longrightarrow> singleton_ok (snd (get_memory_token_storage w))"
proof (cases "cls_instance w")
  case None
  assume "singleton_ok w"
  with None show ?thesis
    by (simp add: get_memory_token_storage_def construct_first singleton_ok_def)
next
  case (Some a)
  assume "singleton_ok w"
  with Some show ?thesis by (simp add: accessor_again) (simp add: singleton_ok_def)
qed

lemma singleton_ok_invoke: "singleton_ok w \<Longrightarrow> singleton_ok (invoke mk a opr w)"
  by (auto simp: singleton_ok_def invoke_def nth_list_update
      split: option.splits storage_object.splits)

lemma singleton_ok_cleanup: "singleton_ok w \<Longrightarrow> singleton_ok (cleanup_memory_storage mk w)"
proof -
  assume ok: "singleton_ok w"
  have "singleton_ok (case module_token_storage w of None \<Rightarrow> w
                      | Some self \<Rightarrow> invoke mk self Clear w)"
    using ok by (simp add: singleton_ok_invoke split: option.splits)
  then show ?thesis
    by (simp add: cleanup_memory_storage_def Let_def singleton_ok_def split: option.splits)
qed

lemma singleton_ok_step: "singleton_ok w \<Longrightarrow> singleton_ok (apply_world_op mk opr w)"
proof (cases opr)
  case Construct
  assume "singleton_ok w"
  with Construct show ?thesis by (simp add: singleton_ok_construct)
next
  case GetMemoryTokenStorage
  assume "singleton_ok w"
  with GetMemoryTokenStorage show ?thesis by (simp add: singleton_ok_accessor)
next
  case CleanupMemoryStorage
  assume "singleton_ok w"
  with CleanupMemoryStorage show ?thesis by (simp add: singleton_ok_cleanup)
next
  case (Invoke x)
  assume "singleton_ok w"
  then have "singleton_ok (snd (get_memory_token_storage w))" by (rule singleton_ok_accessor)
  then have "singleton_ok (invoke mk (fst (get_memory_token_storage w)) x
                             (snd (get_memory_token_storage w)))"
    by (rule singleton_ok_invoke)
  with Invoke show ?thesis by (simp add: case_prod_beta)
qed

lemma singleton_ok_run: "singleton_ok w \<Longrightarrow> singleton_ok (run_world mk ops w)"
  by (induction ops arbitrary: w) (simp_all add: singleton_ok_step)

text \<open>
  C10. In any world reached from the start by constructor calls, accessor calls,
  cleanups and method calls, once the instance exists a further construction returns
  that same instance and changes nothing at all, and the accessor
  \<open>get_memory_token_storage\<close> returns it too and leaves every object as it was: the
  stored tokens, their count and the local id counter are what they were.
\<close>

theorem construction_idempotent:
  "w = run_world mk ops initial_world \<Longrightarrow> cls_instance w = Some self \<Longrightarrow>
     InMemoryTokenStorage w = (self, w) \<and>
     fst (get_memory_token_storage w) = self \<and>
     instance_state (snd (get_memory_token_storage w)) self = instance_state w self \<and>
     heap (snd (get_memory_token_storage w)) = heap w \<and>
     (\<exists>st. instance_state w self = Some st)"
proof -
  assume w: "w = run_world mk ops initial_world" and c: "cls_instance w = Some self"
  from w have ok: "singleton_ok w" by (simp add: singleton_ok_run singleton_ok_initial)
  from ok c have "\<exists>st. instance_state w self = Some st"
    by (auto simp: singleton_ok_def instance_state_def)
  with construct_again [OF ok c] accessor_again [OF ok c] show ?thesis
    by (simp add: instance_state_def)
qed

lemma run1: "run_world pack_id [Construct, Invoke (Create no_token_data)] initial_world =
     \<lparr>heap = [Initialized (snd (create pack_id no_token_data fresh_token_storage))],
      cls_instance = Some 0, module_token_storage = Some 0\<rparr>"
  by (simp add: initial_world_def construct_first get_memory_token_storage_def
      InMemoryTokenStorage_def InMemoryTokenStorage_new_def InMemoryTokenStorage_init_def
      invoke_def)

theorem construction_idempotent_witness:
  "cls_instance (run_world pack_id [Construct, Invoke (Create no_token_data)] initial_world)
     = Some 0 \<and>
   InMemoryTokenStorage (run_world pack_id [Construct, Invoke (Create no_token_data)] initial_world)
     = (0, run_world pack_id [Construct, Invoke (Create no_token_data)] initial_world) \<and>
   map_option count (instance_state
     (run_world pack_id [Construct, Invoke (Create no_token_data)] initial_world) 0) = Some 1 \<and>
   map_option next_local_id (instance_state
     (snd (InMemoryTokenStorage
        (run_world pack_id [Construct, Invoke (Create no_token_data)] initial_world))) 0) = Some 2"
proof -
  let ?w = "run_world pack_id [Construct, Invoke (Create no_token_data)] initial_world"
  have c: "cls_instance ?w = Some 0" unfolding run1 by simp
  have st: "instance_state ?w 0 = Some (snd (create pack_id no_token_data fresh_token_storage))"
    unfolding run1 by (simp add: instance_state_def)
  have n: "count (snd (create pack_id no_token_data fresh_token_storage)) = 1"
    "next_local_id (snd (create pack_id no_token_data fresh_token_storage)) = 2"
    by (simp_all add: create_eval count_def dict_len_def fresh_token_storage_def
        DAList.update.rep_eq DAList.empty.rep_eq)
  from construction_idempotent [OF refl c] c st n show ?thesis by simp
qed

section \<open>Properties of the grid engine\<close>

lemma index_okD:
  assumes "index_ok g"
  shows "0 < bucket_size (cfg g)"
    and "DAList.lookup (token_table g) i = Some t \<Longrightarrow> tok_id t = i"
    and "distinct (bucket_ids (layer_index g layer) k)"
    and "i \<in> set (bucket_ids (layer_index g layer) k) \<longleftrightarrow>
          (\<exists>c. positioned g layer i c \<and> bucket_of (bucket_size (cfg g)) c = k)"
  using assms unfolding index_ok_def by blast+

lemma bucket_ids_insert:
  "bucket_ids (index_insert b i c idx) k =
     (if k = bucket_of b c then List.insert i (bucket_ids idx k) else bucket_ids idx k)"
  by (simp add: index_insert_def bucket_ids_def Let_def)

lemma bucket_ids_remove:
  "bucket_ids (index_remove b i c idx) k =
     (if k = bucket_of b c then removeAll i (bucket_ids idx k) else bucket_ids idx k)"
  by (simp add: index_remove_def bucket_ids_def Let_def)

lemma index_ok_Grid: "0 < bucket_size c \<Longrightarrow> index_ok (Grid c)"
  by (simp add: index_ok_def Grid_def bucket_ids_def positioned_def)

text \<open>Taking a stored token out of the index removes its id from every bucket.\<close>

lemma unindex_token_ids:
  assumes ok: "index_ok g" and old: "DAList.lookup (token_table g) j = Some old"
  shows "set (bucket_ids (layer_index (unindex_token old g) layer) k) =
           set (bucket_ids (layer_index g layer) k) - {j}"
    and "distinct (bucket_ids (layer_index (unindex_token old g) layer) k)"
proof -
  from ok old have id: "tok_id old = j" by (rule index_okD)
  from ok have d: "distinct (bucket_ids (layer_index g layer) k)" by (rule index_okD)
  from ok have mem: "\<And>i. i \<in> set (bucket_ids (layer_index g layer) k) \<longleftrightarrow>
      (\<exists>c. positioned g layer i c \<and> bucket_of (bucket_size (cfg g)) c = k)"
    by (rule index_okD)
  show "set (bucket_ids (layer_index (unindex_token old g) layer) k) =
           set (bucket_ids (layer_index g layer) k) - {j}"
  proof (cases "get_coordinates old layer")
    case None
    with old have "\<not> (\<exists>c. positioned g layer j c)" by (simp add: positioned_def)
    with mem have "j \<notin> set (bucket_ids (layer_index g layer) k)" by blast
    with None show ?thesis by (simp add: unindex_token_def)
  next
    case (Some c0)
    show ?thesis
    proof (cases "k = bucket_of (bucket_size (cfg g)) c0")
      case True
      with Some id show ?thesis by (simp add: unindex_token_def bucket_ids_remove)
    next
      case False
      from old Some have "\<And>c. positioned g layer j c \<Longrightarrow> c = c0" by (simp add: positioned_def)
      with False mem have "j \<notin> set (bucket_ids (layer_index g layer) k)" by blast
      with Some False show ?thesis by (simp add: unindex_token_def bucket_ids_remove)
    qed
  qed
  show "distinct (bucket_ids (layer_index (unindex_token old g) layer) k)"
    using d by (cases "get_coordinates old layer")
      (auto simp: unindex_token_def bucket_ids_remove distinct_removeAll)
qed

lemma index_token_ids:
  "set (bucket_ids (layer_index (index_token t g) layer) k) =
     set (bucket_ids (layer_index g layer) k) \<union>
     (case get_coordinates t layer of
        None \<Rightarrow> {}
      | Some c \<Rightarrow> if k = bucket_of (bucket_size (cfg g)) c then {tok_id t} else {})"
  by (cases "get_coordinates t layer") (simp_all add: index_token_def bucket_ids_insert)

lemma index_token_distinct:
  "distinct (bucket_ids (layer_index g layer) k) \<Longrightarrow>
     distinct (bucket_ids (layer_index (index_token t g) layer) k)"
  by (cases "get_coordinates t layer") (auto simp: index_token_def bucket_ids_insert)

lemma unindex_token_frame:
  "cfg (unindex_token t g) = cfg g" "token_table (unindex_token t g) = token_table g"
  by (simp_all add: unindex_token_def)

lemma index_token_frame:
  "cfg (index_token t g) = cfg g" "token_table (index_token t g) = token_table g"
  by (simp_all add: index_token_def)

lemma positioned_update:
  "positioned (g\<lparr>token_table := DAList.update j t (token_table g)\<rparr>) layer i c \<longleftrightarrow>
     (if i = j then get_coordinates t layer = Some c else positioned g layer i c)"
  by (simp add: positioned_def)

lemma positioned_delete:
  "positioned (g\<lparr>token_table := DAList.delete j (token_table g)\<rparr>) layer i c \<longleftrightarrow>
     (i \<noteq> j \<and> positioned g layer i c)"
  by (simp add: positioned_def)

lemma positioned_frame:
  "token_table g' = token_table g \<Longrightarrow> positioned g' layer i c = positioned g layer i c"
  by (simp add: positioned_def)

text \<open>After the stale entries are gone, the id being added is in no bucket.\<close>

lemma grid_add_cleared:
  fixes g :: grid and t :: token
  defines "g1 \<equiv> (case DAList.lookup (token_table g) (tok_id t) of
                    None \<Rightarrow> g | Some old \<Rightarrow> unindex_token old g)"
  assumes ok: "index_ok g"
  shows "set (bucket_ids (layer_index g1 layer) k) =
           set (bucket_ids (layer_index g layer) k) - {tok_id t}"
    and "distinct (bucket_ids (layer_index g1 layer) k)"
    and "cfg g1 = cfg g" and "token_table g1 = token_table g"
proof -
  show "set (bucket_ids (layer_index g1 layer) k) =
           set (bucket_ids (layer_index g layer) k) - {tok_id t}"
  proof (cases "DAList.lookup (token_table g) (tok_id t)")
    case None
    then have "\<not> (\<exists>c. positioned g layer (tok_id t) c)" by (simp add: positioned_def)
    with index_okD(4) [OF ok, of "tok_id t" layer k]
    have "tok_id t \<notin> set (bucket_ids (layer_index g layer) k)" by blast
    with None show ?thesis by (simp add: g1_def)
  next
    case (Some old)
    with unindex_token_ids(1) [OF ok Some] show ?thesis by (simp add: g1_def)
  qed
  show "distinct (bucket_ids (layer_index g1 layer) k)"
  proof (cases "DAList.lookup (token_table g) (tok_id t)")
    case None
    with index_okD(3) [OF ok] show ?thesis by (simp add: g1_def)
  next
    case (Some old)
    with unindex_token_ids(2) [OF ok Some] show ?thesis by (simp add: g1_def)
  qed
  show "cfg g1 = cfg g" "token_table g1 = token_table g"
    by (simp_all add: g1_def unindex_token_frame split: option.splits)
qed

lemma index_ok_grid_add:
  assumes ok: "index_ok g"
  shows "index_ok (grid_add t g)"
proof -
  define g1 where "g1 = (case DAList.lookup (token_table g) (tok_id t) of
                    None \<Rightarrow> g | Some old \<Rightarrow> unindex_token old g)"
  define g2 where "g2 = index_token t g1"
  have add: "grid_add t g = g2\<lparr>token_table := DAList.update (tok_id t) t (token_table g2)\<rparr>"
    by (simp add: grid_add_def g1_def g2_def Let_def)
  have c1: "cfg g1 = cfg g" and t1: "token_table g1 = token_table g"
    using grid_add_cleared(3,4) [OF ok, of t] by (simp_all add: g1_def)
  have s1: "\<And>layer k. set (bucket_ids (layer_index g1 layer) k) =
           set (bucket_ids (layer_index g layer) k) - {tok_id t}"
    using grid_add_cleared(1) [OF ok, of t] by (simp add: g1_def)
  have d1: "\<And>layer k. distinct (bucket_ids (layer_index g1 layer) k)"
    using grid_add_cleared(2) [OF ok, of t] by (simp add: g1_def)
  have c2: "cfg g2 = cfg g" and t2: "token_table g2 = token_table g"
    by (simp_all add: g2_def index_token_frame c1 t1)
  have d2: "\<And>layer k. distinct (bucket_ids (layer_index g2 layer) k)"
    unfolding g2_def by (rule index_token_distinct) (rule d1)
  have s2: "\<And>layer k. set (bucket_ids (layer_index g2 layer) k) =
      (set (bucket_ids (layer_index g layer) k) - {tok_id t}) \<union>
      (case get_coordinates t layer of
         None \<Rightarrow> {}
       | Some c \<Rightarrow> if k = bucket_of (bucket_size (cfg g)) c then {tok_id t} else {})"
    unfolding g2_def by (simp add: index_token_ids s1 c1 cong: option.case_cong)
  have pos: "\<And>layer i c. positioned (grid_add t g) layer i c \<longleftrightarrow>
      (if i = tok_id t then get_coordinates t layer = Some c else positioned g layer i c)"
    unfolding add positioned_def by (simp add: t2)
  have mem: "\<And>layer k i. i \<in> set (bucket_ids (layer_index (grid_add t g) layer) k) \<longleftrightarrow>
      (\<exists>c. positioned (grid_add t g) layer i c \<and> bucket_of (bucket_size (cfg (grid_add t g))) c = k)"
  proof -
    fix layer k i
    have li: "layer_index (grid_add t g) = layer_index g2" "cfg (grid_add t g) = cfg g"
      by (simp_all add: add c2)
    show "i \<in> set (bucket_ids (layer_index (grid_add t g) layer) k) \<longleftrightarrow>
      (\<exists>c. positioned (grid_add t g) layer i c \<and> bucket_of (bucket_size (cfg (grid_add t g))) c = k)"
    proof (cases "i = tok_id t")
      case True
      then show ?thesis unfolding li s2 pos
        by (cases "get_coordinates t layer") auto
    next
      case False
      then show ?thesis unfolding li s2 pos
        using index_okD(4) [OF ok, of i layer k]
        by (cases "get_coordinates t layer") auto
    qed
  qed
  have ids: "\<And>i t'. DAList.lookup (token_table (grid_add t g)) i = Some t' \<Longrightarrow> tok_id t' = i"
    unfolding add using index_okD(2) [OF ok] by (auto simp: t2 lookup_update split: if_splits)
  have "0 < bucket_size (cfg (grid_add t g))"
    using index_okD(1) [OF ok] by (simp add: add c2)
  moreover have "\<And>layer k. distinct (bucket_ids (layer_index (grid_add t g) layer) k)"
    using d2 by (simp add: add)
  ultimately show ?thesis
    unfolding index_ok_def using ids mem by blast
qed

lemma index_ok_grid_remove:
  assumes ok: "index_ok g"
  shows "index_ok (snd (grid_remove j g))"
proof (cases "DAList.lookup (token_table g) j")
  case None
  with ok show ?thesis by (simp add: grid_remove_def)
next
  case (Some old)
  define g' where "g' = (unindex_token old g)\<lparr>token_table := DAList.delete j (token_table g)\<rparr>"
  from Some have rm: "snd (grid_remove j g) = g'" by (simp add: grid_remove_def g'_def)
  have s: "\<And>layer k. set (bucket_ids (layer_index g' layer) k) =
           set (bucket_ids (layer_index g layer) k) - {j}"
    using unindex_token_ids(1) [OF ok Some] by (simp add: g'_def)
  have d: "\<And>layer k. distinct (bucket_ids (layer_index g' layer) k)"
    using unindex_token_ids(2) [OF ok Some] by (simp add: g'_def)
  have c: "cfg g' = cfg g" by (simp add: g'_def unindex_token_frame)
  have pos: "\<And>layer i c. positioned g' layer i c \<longleftrightarrow> (i \<noteq> j \<and> positioned g layer i c)"
    by (simp add: g'_def positioned_def)
  have mem: "\<And>layer k i. i \<in> set (bucket_ids (layer_index g' layer) k) \<longleftrightarrow>
      (\<exists>c. positioned g' layer i c \<and> bucket_of (bucket_size (cfg g')) c = k)"
    unfolding s pos c using index_okD(4) [OF ok] by auto
  have ids: "\<And>i t'. DAList.lookup (token_table g') i = Some t' \<Longrightarrow> tok_id t' = i"
    using index_okD(2) [OF ok] by (auto simp: g'_def split: if_splits)
  have "0 < bucket_size (cfg g')" using index_okD(1) [OF ok] by (simp add: c)
  then have "index_ok g'" unfolding index_ok_def using ids mem d by blast
  with rm show ?thesis by simp
qed

lemma index_ok_run: "index_ok g \<Longrightarrow> index_ok (run_engine ops g)"
proof (induction ops arbitrary: g)
  case Nil
  then show ?case by simp
next
  case (Cons opr ops)
  have "index_ok (apply_engine_op opr g)"
    using Cons.prems by (cases opr) (simp_all add: index_ok_grid_add index_ok_grid_remove)
  then show ?case using Cons.IH by simp
qed

lemma distinct_concat_map_tagged:
  "distinct xs \<Longrightarrow> (\<And>x. x \<in> set xs \<Longrightarrow> distinct (f x)) \<Longrightarrow>
   (\<And>x y. x \<in> set xs \<Longrightarrow> y \<in> set (f x) \<Longrightarrow> tag y = x) \<Longrightarrow>
   distinct (concat (map f xs))"
proof (induction xs)
  case Nil
  then show ?case by simp
next
  case (Cons x xs)
  have "distinct (concat (map f xs))"
    using Cons.IH Cons.prems by simp
  moreover have "distinct (f x)" using Cons.prems(2) by simp
  moreover have "set (f x) \<inter> set (concat (map f xs)) = {}"
  proof (rule ccontr)
    assume "set (f x) \<inter> set (concat (map f xs)) \<noteq> {}"
    then obtain y x' where y: "y \<in> set (f x)" "x' \<in> set xs" "y \<in> set (f x')" by auto
    from Cons.prems(3) [of x y] y have "tag y = x" by simp
    moreover from Cons.prems(3) [of x' y] y have "tag y = x'" by simp
    ultimately have "x \<in> set xs" using y by simp
    with Cons.prems(1) show False by simp
  qed
  ultimately show ?case by simp
qed

lemma set_buckets_in_radius:
  "set (buckets_in_radius b (x, y, z) r) =
     {(i, j, k). \<lfloor>(x - r) / b\<rfloor> \<le> i \<and> i \<le> \<lfloor>(x + r) / b\<rfloor> \<and>
                 \<lfloor>(y - r) / b\<rfloor> \<le> j \<and> j \<le> \<lfloor>(y + r) / b\<rfloor> \<and>
                 \<lfloor>(z - r) / b\<rfloor> \<le> k \<and> k \<le> \<lfloor>(z + r) / b\<rfloor>}"
  by (fastforce simp: image_iff)

lemma distinct_buckets_in_radius: "distinct (buckets_in_radius b c r)"
proof -
  obtain x y z where c: "c = (x, y, z)" by (cases c)
  have inner: "\<And>i j. distinct (map (\<lambda>k. (i, j, k)) [\<lfloor>(z - r) / b\<rfloor> .. \<lfloor>(z + r) / b\<rfloor>])"
    by (simp add: distinct_map inj_on_def)
  have middle: "\<And>i. distinct (concat (map (\<lambda>j. map (\<lambda>k. (i, j, k))
        [\<lfloor>(z - r) / b\<rfloor> .. \<lfloor>(z + r) / b\<rfloor>]) [\<lfloor>(y - r) / b\<rfloor> .. \<lfloor>(y + r) / b\<rfloor>]))"
    by (rule distinct_concat_map_tagged [where tag = "\<lambda>p. fst (snd p)"]) (auto simp: inner)
  have "distinct (concat (map (\<lambda>i. concat (map (\<lambda>j. map (\<lambda>k. (i, j, k))
        [\<lfloor>(z - r) / b\<rfloor> .. \<lfloor>(z + r) / b\<rfloor>])
        [\<lfloor>(y - r) / b\<rfloor> .. \<lfloor>(y + r) / b\<rfloor>]))
        [\<lfloor>(x - r) / b\<rfloor> .. \<lfloor>(x + r) / b\<rfloor>]))"
    by (rule distinct_concat_map_tagged [where tag = fst]) (auto simp: middle)
  with c show ?thesis by simp
qed

lemma abs_le_distance:
  "\<bar>x1 - x2\<bar> \<le> distance (x1, y1, z1) (x2, y2, z2) \<and>
   \<bar>y1 - y2\<bar> \<le> distance (x1, y1, z1) (x2, y2, z2) \<and>
   \<bar>z1 - z2\<bar> \<le> distance (x1, y1, z1) (x2, y2, z2)"
  by (simp add: real_le_rsqrt)

lemma floor_range:
  fixes x x' r b :: real
  assumes "0 < b" "\<bar>x - x'\<bar> \<le> r"
  shows "\<lfloor>(x - r) / b\<rfloor> \<le> \<lfloor>x' / b\<rfloor>" "\<lfloor>x' / b\<rfloor> \<le> \<lfloor>(x + r) / b\<rfloor>"
proof -
  from assms have "(x - r) / b \<le> x' / b" by (intro divide_right_mono) auto
  then show "\<lfloor>(x - r) / b\<rfloor> \<le> \<lfloor>x' / b\<rfloor>" by (rule floor_mono)
  from assms have "x' / b \<le> (x + r) / b" by (intro divide_right_mono) auto
  then show "\<lfloor>x' / b\<rfloor> \<le> \<lfloor>(x + r) / b\<rfloor>" by (rule floor_mono)
qed

lemma bucket_in_radius:
  assumes "0 < b" "distance c c' \<le> r"
  shows "bucket_of b c' \<in> set (buckets_in_radius b c r)"
proof -
  obtain x y z where c: "c = (x, y, z)" by (cases c)
  obtain x' y' z' where c': "c' = (x', y', z')" by (cases c')
  from assms(2) abs_le_distance [where ?x1.0 = x and ?x2.0 = x' and ?y1.0 = y and ?y2.0 = y'
      and ?z1.0 = z and ?z2.0 = z'] c c'
  have "\<bar>x - x'\<bar> \<le> r" "\<bar>y - y'\<bar> \<le> r" "\<bar>z - z'\<bar> \<le> r" by simp_all
  with floor_range [OF assms(1)] show ?thesis
    unfolding c c' set_buckets_in_radius by simp
qed

lemma set_candidates:
  assumes ok: "index_ok g"
  shows "set (candidates g layer c r) =
     {i. \<exists>ci. positioned g layer i ci \<and>
           bucket_of (bucket_size (cfg g)) ci \<in> set (buckets_in_radius (bucket_size (cfg g)) c r)}"
proof -
  have "set (candidates g layer c r) =
      (\<Union>k \<in> set (buckets_in_radius (bucket_size (cfg g)) c r).
          set (bucket_ids (layer_index g layer) k))"
    by (simp only: candidates_def set_concat set_map image_image)
  also have "\<dots> = {i. \<exists>ci. positioned g layer i ci \<and>
           bucket_of (bucket_size (cfg g)) ci \<in> set (buckets_in_radius (bucket_size (cfg g)) c r)}"
  proof (rule set_eqI)
    fix i
    show "i \<in> (\<Union>k \<in> set (buckets_in_radius (bucket_size (cfg g)) c r).
          set (bucket_ids (layer_index g layer) k)) \<longleftrightarrow>
       i \<in> {i. \<exists>ci. positioned g layer i ci \<and>
           bucket_of (bucket_size (cfg g)) ci \<in> set (buckets_in_radius (bucket_size (cfg g)) c r)}"
      unfolding UN_iff mem_Collect_eq index_okD(4) [OF ok] by blast
  qed
  finally show ?thesis .
qed

lemma distinct_candidates:
  assumes ok: "index_ok g"
  shows "distinct (candidates g layer c r)"
  unfolding candidates_def
proof (rule distinct_concat_map_tagged
    [where tag = "\<lambda>i. bucket_of (bucket_size (cfg g))
       (the (get_coordinates (the (DAList.lookup (token_table g) i)) layer))"])
  show "distinct (buckets_in_radius (bucket_size (cfg g)) c r)"
    by (rule distinct_buckets_in_radius)
next
  fix k
  show "distinct (bucket_ids (layer_index g layer) k)" using ok by (rule index_okD)
next
  fix k i
  assume "i \<in> set (bucket_ids (layer_index g layer) k)"
  with index_okD(4) [OF ok, of i layer k]
  obtain ci where "positioned g layer i ci" "bucket_of (bucket_size (cfg g)) ci = k" by blast
  then show "bucket_of (bucket_size (cfg g))
       (the (get_coordinates (the (DAList.lookup (token_table g) i)) layer)) = k"
    by (auto simp: positioned_def)
qed

lemma set_measured:
  "(j, t, d) \<in> set (measured g layer c i) \<longleftrightarrow>
     j = i \<and> DAList.lookup (token_table g) i = Some t \<and>
        (\<exists>ci. get_coordinates t layer = Some ci \<and> d = distance c ci)"
proof (cases "DAList.lookup (token_table g) i")
  case None
  then show ?thesis by (simp add: measured_def)
next
  case (Some t')
  then show ?thesis
    by (cases "get_coordinates t' layer") (auto simp: measured_def)
qed

lemma measured_fst: "p \<in> set (measured g layer c i) \<Longrightarrow> fst p = i"
  by (cases p) (simp add: set_measured)

lemma distinct_measured: "distinct (measured g layer c i)"
  by (simp add: measured_def split: option.splits)

text \<open>The two phases together: exactly the positioned tokens within the radius.\<close>

lemma set_within_radius:
  assumes ok: "index_ok g"
  shows "set (within_radius g layer c r) =
     {(i, t, d). DAList.lookup (token_table g) i = Some t \<and>
        (\<exists>ci. get_coordinates t layer = Some ci \<and> d = distance c ci \<and> d \<le> r)}"
proof (rule set_eqI)
  fix p :: "int \<times> token \<times> real"
  obtain i t d where p: "p = (i, t, d)" by (cases p)
  show "p \<in> set (within_radius g layer c r) \<longleftrightarrow>
     p \<in> {(i, t, d). DAList.lookup (token_table g) i = Some t \<and>
        (\<exists>ci. get_coordinates t layer = Some ci \<and> d = distance c ci \<and> d \<le> r)}"
  proof
    assume "p \<in> set (within_radius g layer c r)"
    then show "p \<in> {(i, t, d). DAList.lookup (token_table g) i = Some t \<and>
        (\<exists>ci. get_coordinates t layer = Some ci \<and> d = distance c ci \<and> d \<le> r)}"
      unfolding p within_radius_def by (auto simp: set_measured)
  next
    assume "p \<in> {(i, t, d). DAList.lookup (token_table g) i = Some t \<and>
        (\<exists>ci. get_coordinates t layer = Some ci \<and> d = distance c ci \<and> d \<le> r)}"
    then obtain ci where h: "DAList.lookup (token_table g) i = Some t"
      "get_coordinates t layer = Some ci" "d = distance c ci" "d \<le> r"
      unfolding p by auto
    from h have pos: "positioned g layer i ci" by (auto simp: positioned_def)
    from h have "bucket_of (bucket_size (cfg g)) ci
        \<in> set (buckets_in_radius (bucket_size (cfg g)) c r)"
      using bucket_in_radius [OF index_okD(1) [OF ok], of c ci r] by simp
    with pos have "i \<in> set (candidates g layer c r)"
      unfolding set_candidates [OF ok] by blast
    moreover from h have "(i, t, d) \<in> set (measured g layer c i)"
      by (simp add: set_measured)
    ultimately show "p \<in> set (within_radius g layer c r)"
      unfolding p within_radius_def using h(4) by auto
  qed
qed

lemma distinct_within_radius_ids:
  assumes ok: "index_ok g"
  shows "distinct (map fst (within_radius g layer c r))"
proof -
  have fst_measured: "\<And>i. map fst (measured g layer c i) =
      (if measured g layer c i = [] then [] else [i])"
    by (simp add: measured_def split: option.splits)
  have "distinct (concat (map (\<lambda>i. map fst (measured g layer c i)) (candidates g layer c r)))"
    by (rule distinct_concat_map_tagged [where tag = "\<lambda>i. i"])
       (auto simp: distinct_candidates [OF ok] fst_measured split: if_splits)
  then have "distinct (map fst (concat (map (measured g layer c) (candidates g layer c r))))"
    by (simp add: map_concat comp_def)
  then show ?thesis
    unfolding within_radius_def by (rule distinct_map_filter)
qed

lemma nearer_key: "nearer p q \<longleftrightarrow> (case p of (i, d) \<Rightarrow> (d, i)) < (case q of (i, d) \<Rightarrow> (d, i))"
  by (cases p; cases q) (auto simp: nearer_def less_prod_def)

lemma by_distance_sorted:
  assumes "distinct ps"
  shows "sorted_wrt nearer (by_distance ps)" and "set (by_distance ps) = set ps"
proof -
  let ?key = "\<lambda>(i :: int, d :: real). (d, i)"
  have inj: "inj ?key" by (auto simp: inj_on_def)
  have "distinct (by_distance ps)" using assms by (simp add: by_distance_def)
  then have "distinct (map ?key (by_distance ps))"
    by (auto simp: distinct_map inj_on_def)
  moreover have "sorted (map ?key (by_distance ps))"
    by (simp add: by_distance_def)
  ultimately have "sorted_wrt (<) (map ?key (by_distance ps))"
    by (simp add: strict_sorted_iff)
  then have "sorted_wrt (\<lambda>p q. ?key p < ?key q) (by_distance ps)"
    by (simp add: sorted_wrt_map)
  then show "sorted_wrt nearer (by_distance ps)"
    by (simp add: nearer_key [abs_def])
  show "set (by_distance ps) = set ps" by (simp add: by_distance_def)
qed

lemma engine_neighbors_exact:
  assumes ok: "index_ok g"
    and layer: "0 \<le> layer" "layer \<le> 7" and radius: "0 \<le> radius"
    and t: "DAList.lookup (token_table g) token_id = Some t"
    and c: "get_coordinates t (nat layer) = Some c"
  shows "\<exists>full.
     grid_find_neighbors g token_id layer radius max_results = Inr (take (nat max_results) full) \<and>
     set full = {(i, d). i \<noteq> token_id \<and>
        (\<exists>ti ci. DAList.lookup (token_table g) i = Some ti \<and>
           get_coordinates ti (nat layer) = Some ci \<and> d = distance c ci \<and> d \<le> radius)} \<and>
     sorted_wrt nearer full"
proof -
  define found where
    "found = filter (\<lambda>(i, t, d). i \<noteq> token_id) (within_radius g (nat layer) c radius)"
  define pairs where "pairs = map (\<lambda>(i, t, d). (i, d)) found"
  have res: "grid_find_neighbors g token_id layer radius max_results =
      Inr (take (nat max_results) (by_distance pairs))"
    using layer radius t c by (simp add: grid_find_neighbors_def found_def pairs_def)
  have "distinct (map fst found)"
    unfolding found_def
    by (rule distinct_map_filter) (rule distinct_within_radius_ids [OF ok])
  moreover have "map fst pairs = map fst found"
    by (simp add: pairs_def case_prod_beta)
  ultimately have "distinct (map fst pairs)" by simp
  then have dp: "distinct pairs" by (simp add: distinct_map)
  have "set pairs = (\<lambda>(i, t, d). (i, d)) ` set found" by (simp add: pairs_def)
  also have "set found = {(i, t, d). i \<noteq> token_id \<and>
        DAList.lookup (token_table g) i = Some t \<and>
        (\<exists>ci. get_coordinates t (nat layer) = Some ci \<and> d = distance c ci \<and> d \<le> radius)}"
    unfolding found_def by (auto simp: set_within_radius [OF ok])
  also have "(\<lambda>(i, t, d). (i, d)) ` \<dots> = {(i, d). i \<noteq> token_id \<and>
        (\<exists>ti ci. DAList.lookup (token_table g) i = Some ti \<and>
           get_coordinates ti (nat layer) = Some ci \<and> d = distance c ci \<and> d \<le> radius)}"
    by (auto simp: image_iff) blast+
  finally have sp: "set pairs = {(i, d). i \<noteq> token_id \<and>
        (\<exists>ti ci. DAList.lookup (token_table g) i = Some ti \<and>
           get_coordinates ti (nat layer) = Some ci \<and> d = distance c ci \<and> d \<le> radius)}" .
  from by_distance_sorted [OF dp] sp res show ?thesis by auto
qed

text \<open>
  C1. For a grid of the storage built from an empty grid of positive bucket size by
  adding and removing tokens, and a query token with a coordinate in the layer,
  \<open>find_neighbors\<close> returns the first \<open>max_results\<close> entries of a list that holds
  exactly the pairs (id, distance) of the other tokens of the table whose coordinate in
  that layer is within the radius in exact Euclidean distance, in ascending order of
  distance and, at equal distance, of id.
\<close>

theorem find_neighbors_exact:
  assumes "get_grid grid_id s = Some g" and "g = run_engine ops (Grid c0)"
    and "0 < bucket_size c0"
    and "0 \<le> layer" and "layer \<le> 7" and "0 \<le> radius"
    and "DAList.lookup (token_table g) token_id = Some t"
    and "get_coordinates t (nat layer) = Some c"
  shows "\<exists>full.
     find_neighbors grid_id token_id layer radius max_results s
       = Inr (take (nat max_results) full) \<and>
     set full = {(i, d). i \<noteq> token_id \<and>
        (\<exists>ti ci. DAList.lookup (token_table g) i = Some ti \<and>
           get_coordinates ti (nat layer) = Some ci \<and> d = distance c ci \<and> d \<le> radius)} \<and>
     sorted_wrt nearer full"
proof -
  have "index_ok g"
    using assms(2,3) by (simp add: index_ok_run index_ok_Grid)
  from engine_neighbors_exact [OF this assms(4-8), of max_results] assms(1)
  show ?thesis by (simp add: find_neighbors_def get_grid_def)
qed

lemma token_table_grid_add:
  "token_table (grid_add t g) = DAList.update (tok_id t) t (token_table g)"
  by (simp add: grid_add_def Let_def index_token_def unindex_token_def split: option.splits)

lemma sample_table:
  "DAList.lookup (token_table sample_grid) 1 = Some (at_layer0 1 (0, 0, 0))"
  by (simp add: sample_grid_def token_table_grid_add at_layer0_def Token_def lookup_update)

lemma sqrt_25: "sqrt 25 = 5"
  by (rule real_sqrt_unique) simp_all

lemma sample_index:
  "layer_index sample_grid 0 =
     [(0, 0, 0) \<mapsto> [2, 1], (10, 10, 10) \<mapsto> [3]]"
  by (simp add: sample_grid_def grid_add_def Let_def index_token_def unindex_token_def
      Grid_def GridConfig_def at_layer0_def Token_def get_coordinates_def lookup_update
      index_insert_def bucket_ids_def fun_eq_iff)

lemma sample_candidates: "candidates sample_grid 0 (0, 0, 0) 5 = [2, 1]"
proof -
  have b: "bucket_size (cfg sample_grid) = 10"
    by (simp add: sample_grid_def grid_add_def Let_def index_token_def unindex_token_def
      Grid_def GridConfig_def split: option.splits)
  have up: "[- 1 .. 0 :: int] = [- 1, 0]" by (simp add: upto.simps)
  show ?thesis
    by (simp add: candidates_def b sample_index bucket_ids_def up)
qed

lemma sample_neighbors:
  "grid_find_neighbors sample_grid 1 0 5 10 = Inr [(2, 5)]"
proof -
  have tab: "DAList.lookup (token_table sample_grid) 1 = Some (at_layer0 1 (0, 0, 0))"
    "DAList.lookup (token_table sample_grid) 2 = Some (at_layer0 2 (3, 4, 0))"
    by (simp_all add: sample_grid_def token_table_grid_add at_layer0_def Token_def lookup_update)
  have co: "\<And>i c. get_coordinates (at_layer0 i c) 0 = Some c"
    by (simp add: at_layer0_def get_coordinates_def)
  have w: "within_radius sample_grid 0 (0, 0, 0) 5 =
      [(2, at_layer0 2 (3, 4, 0), 5), (1, at_layer0 1 (0, 0, 0), 0)]"
    by (simp add: within_radius_def sample_candidates measured_def tab co sqrt_25)
  show ?thesis
    by (simp add: grid_find_neighbors_def tab co w by_distance_def)
qed

theorem find_neighbors_exact_witness:
  "get_grid 1 sample_grid_storage = Some sample_grid \<and>
   DAList.lookup (token_table sample_grid) 1 = Some (at_layer0 1 (0, 0, 0)) \<and>
   get_coordinates (at_layer0 1 (0, 0, 0)) (nat 0) = Some (0, 0, 0) \<and>
   find_neighbors 1 1 0 5 10 sample_grid_storage = Inr [(2, 5)] \<and>
   (\<exists>full.
     find_neighbors 1 1 0 5 10 sample_grid_storage = Inr (take (nat 10) full) \<and>
     set full = {(i, d). i \<noteq> 1 \<and>
        (\<exists>ti ci. DAList.lookup (token_table sample_grid) i = Some ti \<and>
           get_coordinates ti (nat 0) = Some ci \<and> d = distance (0, 0, 0) ci \<and> d \<le> 5)} \<and>
     sorted_wrt nearer full)"
proof -
  have g: "get_grid 1 sample_grid_storage = Some sample_grid"
    by (simp add: get_grid_def sample_grid_storage_def)
  have b: "0 < bucket_size GridConfig" by (simp add: GridConfig_def)
  have co: "get_coordinates (at_layer0 1 (0, 0, 0)) (nat 0) = Some (0, 0, 0)"
    by (simp add: at_layer0_def get_coordinates_def)
  have r: "find_neighbors 1 1 0 5 10 sample_grid_storage = Inr [(2, 5)]"
    using g sample_neighbors by (simp add: find_neighbors_def get_grid_def)
  from find_neighbors_exact [OF g sample_grid_def b _ _ _ sample_table co, of 5 10]
  have "\<exists>full.
     find_neighbors 1 1 0 5 10 sample_grid_storage = Inr (take (nat 10) full) \<and>
     set full = {(i, d). i \<noteq> 1 \<and>
        (\<exists>ti ci. DAList.lookup (token_table sample_grid) i = Some ti \<and>
           get_coordinates ti (nat 0) = Some ci \<and> d = distance (0, 0, 0) ci \<and> d \<le> 5)} \<and>
     sorted_wrt nearer full"
    by simp
  with g sample_table co r show ?thesis by blast
qed

end
